theory Spec2Isabelle
  imports Complex_Main
begin

section \<open>Numbers, rectangles and errors\<close>

text \<open>
  The game of \<^verbatim>\<open>flappy_bird.py\<close> is embedded function by function. Python integers are
  \<open>int\<close>. Python floats (positions, speeds, the score) are idealised as \<open>real\<close>: the
  properties below use only addition, subtraction, comparison and \<open>min\<close> of such values.
  The objects of a class are records; a method that mutates its object returns the updated
  record. The only exception that escapes a function of the game is \<open>ValueError\<close>
  (from \<open>int(...)\<close> on a string and from \<open>random.randint\<close> on an empty range).
\<close>

datatype error = ValueError

text \<open>Python's \<open>int(x)\<close> on a float: truncation towards zero.\<close>

definition py_trunc :: "real \<Rightarrow> int" where
  "py_trunc r = (if 0 \<le> r then \<lfloor>r\<rfloor> else \<lceil>r\<rceil>)"

text \<open>
  \<open>pygame.Rect\<close> is the library's integer rectangle \<open>(x, y, w, h)\<close>, with the derived
  attributes and the two intersection tests of pygame 2. \<open>centery\<close> halves the height with
  C's division, which truncates towards zero. \<open>colliderect\<close> is false as soon as one of
  the two rectangles has zero width or zero height, and otherwise strict overlap on both
  axes of the boxes between their smaller and larger edges (a size may be negative).
  \<open>collidepoint\<close> includes the left and top edge and excludes the right and bottom edge.
\<close>

record Rect =
  rect_x :: int
  rect_y :: int
  rect_w :: int
  rect_h :: int

definition Rect_init :: "int \<Rightarrow> int \<Rightarrow> int \<Rightarrow> int \<Rightarrow> Rect" where
  "Rect_init a b c d = \<lparr>rect_x = a, rect_y = b, rect_w = c, rect_h = d\<rparr>"

definition rect_left :: "Rect \<Rightarrow> int" where
  "rect_left r = rect_x r"

definition rect_top :: "Rect \<Rightarrow> int" where
  "rect_top r = rect_y r"

definition rect_right :: "Rect \<Rightarrow> int" where
  "rect_right r = rect_x r + rect_w r"

definition rect_bottom :: "Rect \<Rightarrow> int" where
  "rect_bottom r = rect_y r + rect_h r"

definition rect_centery :: "Rect \<Rightarrow> int" where
  "rect_centery r =
     rect_y r + (if 0 \<le> rect_h r then rect_h r div 2 else - ((- rect_h r) div 2))"

definition colliderect :: "Rect \<Rightarrow> Rect \<Rightarrow> bool" where
  "colliderect a b \<longleftrightarrow>
     (if rect_w a = 0 \<or> rect_h a = 0 \<or> rect_w b = 0 \<or> rect_h b = 0 then False
      else
        min (rect_x a) (rect_x a + rect_w a) < max (rect_x b) (rect_x b + rect_w b) \<and>
        min (rect_y a) (rect_y a + rect_h a) < max (rect_y b) (rect_y b + rect_h b) \<and>
        max (rect_x a) (rect_x a + rect_w a) > min (rect_x b) (rect_x b + rect_w b) \<and>
        max (rect_y a) (rect_y a + rect_h a) > min (rect_y b) (rect_y b + rect_h b))"

definition collidepoint :: "Rect \<Rightarrow> int \<times> int \<Rightarrow> bool" where
  "collidepoint r p \<longleftrightarrow>
     rect_x r \<le> fst p \<and> fst p < rect_x r + rect_w r \<and>
     rect_y r \<le> snd p \<and> snd p < rect_y r + rect_h r"

section \<open>Configuration\<close>

text \<open>
  \<^verbatim>\<open>levels.json\<close> is read once at startup and is not part of the sources, so the
  configuration is a parameter: a record of the fields the game reads, with
  \<open>config['levels'][0]\<close> flattened into it (\<open>current_level\<close> is always 0). Sizes, the gap and
  the enemy cap are integers, speeds, multipliers and intervals are numbers.
\<close>

record Config =
  window_width :: int
  window_height :: int
  player_width :: int
  player_height :: int
  player_gravity :: real
  player_flap_strength :: real
  player_max_velocity :: real
  walls_width :: int
  walls_gap :: int
  walls_speed :: real
  enemies_width :: int
  enemies_height :: int
  enemies_speed :: real
  enemies_spawn_rate :: real
  wall_speed_multiplier :: real
  enemy_speed_multiplier :: real
  wall_frequency :: real
  enemy_count :: int

section \<open>Entities\<close>

record GameObject =
  rect :: Rect
  pos_x :: real
  pos_y :: real
  obj_width :: int
  obj_height :: int

record Player = GameObject +
  velocity :: real
  gravity :: real
  flap_strength :: real
  max_velocity :: real

record Wall = GameObject +
  wall_speed :: real

record Projectile = GameObject +
  proj_speed :: real

record Enemy = GameObject +
  enemy_speed :: real
  direction :: int
  amplitude :: real
  original_y :: real
  time :: real

definition Player_init :: "int \<Rightarrow> int \<Rightarrow> Config \<Rightarrow> Player" where
  "Player_init a b cfg =
     \<lparr>rect = Rect_init a b (player_width cfg) (player_height cfg),
      pos_x = of_int a, pos_y = of_int b,
      obj_width = player_width cfg, obj_height = player_height cfg,
      velocity = 0, gravity = player_gravity cfg,
      flap_strength = player_flap_strength cfg,
      max_velocity = player_max_velocity cfg\<rparr>"

definition Player_update :: "Player \<Rightarrow> Player" where
  "Player_update p =
     (let v = min (velocity p + gravity p) (max_velocity p);
          b = pos_y p + v
      in p\<lparr>velocity := v, pos_y := b, rect := (rect p)\<lparr>rect_y := py_trunc b\<rparr>\<rparr>)"

definition Player_flap :: "Player \<Rightarrow> Player" where
  "Player_flap p = p\<lparr>velocity := flap_strength p\<rparr>"

definition Wall_init :: "int \<Rightarrow> int \<Rightarrow> int \<Rightarrow> int \<Rightarrow> real \<Rightarrow> Wall" where
  "Wall_init a b c d s =
     \<lparr>rect = Rect_init a b c d, pos_x = of_int a, pos_y = of_int b,
      obj_width = c, obj_height = d, wall_speed = s\<rparr>"

definition Wall_update :: "Wall \<Rightarrow> Wall" where
  "Wall_update w =
     (let a = pos_x w - wall_speed w
      in w\<lparr>pos_x := a, rect := (rect w)\<lparr>rect_x := py_trunc a\<rparr>\<rparr>)"

definition Projectile_init :: "int \<Rightarrow> int \<Rightarrow> real \<Rightarrow> Projectile" where
  "Projectile_init a b s =
     \<lparr>rect = Rect_init a b 20 10, pos_x = of_int a, pos_y = of_int b,
      obj_width = 20, obj_height = 10, proj_speed = s\<rparr>"

definition Projectile_update :: "Projectile \<Rightarrow> Projectile" where
  "Projectile_update p =
     (let a = pos_x p + proj_speed p
      in p\<lparr>pos_x := a, rect := (rect p)\<lparr>rect_x := py_trunc a\<rparr>\<rparr>)"

text \<open>
  \<open>Enemy.__init__\<close> draws \<open>random.choice([-1, 1])\<close> and \<open>random.random() * 10\<close>; the two
  draws are the arguments \<open>dir\<close> and \<open>t0\<close>.
\<close>

definition Enemy_init :: "int \<Rightarrow> int \<Rightarrow> Config \<Rightarrow> real \<Rightarrow> int \<Rightarrow> real \<Rightarrow> Enemy" where
  "Enemy_init a b cfg speed_multiplier dir t0 =
     \<lparr>rect = Rect_init a b (enemies_width cfg) (enemies_height cfg),
      pos_x = of_int a, pos_y = of_int b,
      obj_width = enemies_width cfg, obj_height = enemies_height cfg,
      enemy_speed = enemies_speed cfg * speed_multiplier,
      direction = dir, amplitude = 100, original_y = of_int b, time = t0\<rparr>"

definition Enemy_update :: "Enemy \<Rightarrow> Enemy" where
  "Enemy_update e =
     (let a = pos_x e - enemy_speed e;
          t = time e + 5 / 100;
          b = original_y e + amplitude e * sin t
      in e\<lparr>pos_x := a, time := t, pos_y := b,
            rect := (rect e)\<lparr>rect_x := py_trunc a, rect_y := py_trunc b\<rparr>\<rparr>)"

section \<open>Library functions used by the game\<close>

text \<open>
  \<open>int(s)\<close> on a string, for ASCII content: surrounding whitespace (space, tab, line
  feed, vertical tab, form feed, carriage return) is stripped, then an optional sign and
  decimal digits (single underscores allowed between digits) are read; anything else raises
  \<open>ValueError\<close>, and so does a numeral of more than 4300 digits, leading zeros counted
  (the conversion limit of CPython 3.11). \<open>str(n)\<close> is the decimal numeral; its own limit
  of 4300 digits is out of reach for the number the game writes, which is the \<open>int\<close> of
  a float.
\<close>

definition is_space :: "char \<Rightarrow> bool" where
  "is_space c \<longleftrightarrow> c \<in> set [CHR '' '', CHR 0x09, CHR 0x0A, CHR 0x0B, CHR 0x0C, CHR 0x0D]"

definition strip :: "string \<Rightarrow> string" where
  "strip s = rev (dropWhile is_space (rev (dropWhile is_space s)))"

definition digit_of :: "char \<Rightarrow> nat option" where
  "digit_of c = map_of (zip ''0123456789'' [0 ..< 10]) c"

fun digits_value :: "string \<Rightarrow> nat \<Rightarrow> nat option" where
  "digits_value [] acc = Some acc"
| "digits_value (c # cs) acc =
     (case digit_of c of
        Some d \<Rightarrow> digits_value cs (10 * acc + d)
      | None \<Rightarrow>
          (if c = CHR ''_'' then
             (case cs of
                [] \<Rightarrow> None
              | c' # _ \<Rightarrow> (if digit_of c' = None then None else digits_value cs acc))
           else None))"

definition unsigned_value :: "string \<Rightarrow> nat option" where
  "unsigned_value s =
     (case s of
        [] \<Rightarrow> None
      | c # _ \<Rightarrow> (if digit_of c = None then None else digits_value s 0))"

definition int_of_str :: "string \<Rightarrow> error + int" where
  "int_of_str s =
     (let t = strip s;
          neg = (t \<noteq> [] \<and> hd t = CHR ''-'');
          body = (if t \<noteq> [] \<and> (hd t = CHR ''-'' \<or> hd t = CHR ''+'') then tl t else t)
      in if length (filter (\<lambda>c. digit_of c \<noteq> None) body) > 4300 then Inl ValueError
         else
           (case unsigned_value body of
              None \<Rightarrow> Inl ValueError
            | Some n \<Rightarrow> Inr (if neg then - int n else int n)))"

fun str_of_nat :: "nat \<Rightarrow> string" where
  "str_of_nat n =
     (if n < 10 then [''0123456789'' ! n]
      else str_of_nat (n div 10) @ [''0123456789'' ! (n mod 10)])"

declare str_of_nat.simps [simp del]

definition str_of_int :: "int \<Rightarrow> string" where
  "str_of_int i = (if i < 0 then CHR ''-'' # str_of_nat (nat (- i)) else str_of_nat (nat i))"

text \<open>
  \<open>random.randint(a, b)\<close> raises \<open>ValueError\<close> on an empty range and otherwise returns
  some integer of \<open>[a, b]\<close>. The draw is the argument \<open>r\<close>, any integer, folded into the
  range, so that every value of the range is a possible result and no other is.
\<close>

definition randint :: "int \<Rightarrow> int \<Rightarrow> int \<Rightarrow> error + int" where
  "randint a b r = (if b < a then Inl ValueError else Inr (a + r mod (b - a + 1)))"

section \<open>The game object\<close>

datatype GameState = START | PLAYING | GAME_OVER

text \<open>
  What a call reads from outside the program: the readings of \<open>pygame.time.get_ticks()\<close>
  (the second one is used by \<open>reset_game\<close> only, which reads the clock twice), the random
  draws, and the rendered size of the start button's text.
\<close>

record Env =
  get_ticks :: int
  get_ticks2 :: int
  rand_gap :: int
  rand_enemy_y :: int
  rand_choice :: bool
  rand_random :: real
  text_size :: "int \<times> int"

text \<open>
  The attributes of \<open>FlappyBird\<close> that the simulation reads or writes. \<open>highscore_txt\<close> is
  the content of the file \<^verbatim>\<open>highscore.txt\<close> (\<open>None\<close>: no such file),
  \<open>start_button_rect\<close> is \<open>None\<close> until \<open>draw_start_screen\<close> has set the attribute, and
  \<open>running\<close> is the local variable of \<open>run\<close>. Images, sounds and the screen surface do
  not flow back into these attributes and are left out.
\<close>

record FlappyBird =
  config :: Config
  width :: int
  height :: int
  current_level :: nat
  score :: real
  high_score :: int
  game_state :: GameState
  bg_scroll :: real
  bg_scroll_speed :: real
  projectiles :: "Projectile list"
  last_shot :: int
  shot_cooldown :: int
  player :: Player
  walls :: "Wall list"
  enemies :: "Enemy list"
  last_wall :: int
  last_enemy :: int
  start_button_rect :: "Rect option"
  running :: bool
  highscore_txt :: "string option"

definition load_high_score :: "string option \<Rightarrow> error + int" where
  "load_high_score file =
     (case file of
        None \<Rightarrow> Inr 0
      | Some content \<Rightarrow> int_of_str content)"

definition save_high_score :: "FlappyBird \<Rightarrow> FlappyBird" where
  "save_high_score g = g\<lparr>highscore_txt := Some (str_of_int (high_score g))\<rparr>"

definition create_wall_pair :: "Env \<Rightarrow> FlappyBird \<Rightarrow> error + FlappyBird" where
  "create_wall_pair env g =
     (let gap = walls_gap (config g) in
      case randint gap (height g - gap) (rand_gap env) of
        Inl e \<Rightarrow> Inl e
      | Inr gap_y \<Rightarrow>
          (let speed = walls_speed (config g) * wall_speed_multiplier (config g);
               top_wall = Wall_init (width g) 0 (walls_width (config g))
                            (gap_y - gap div 2) speed;
               bottom_wall = Wall_init (width g) (gap_y + gap div 2) (walls_width (config g))
                               (height g - (gap_y + gap div 2)) speed
           in Inr (g\<lparr>walls := walls g @ [top_wall, bottom_wall]\<rparr>)))"

definition reset_game :: "Env \<Rightarrow> FlappyBird \<Rightarrow> error + FlappyBird" where
  "reset_game env g =
     (case create_wall_pair env
             (g\<lparr>player := Player_init (width g div 4) (height g div 2) (config g),
                walls := [], enemies := [], projectiles := [],
                last_wall := 0, last_enemy := get_ticks env, last_shot := get_ticks2 env\<rparr>) of
        Inl e \<Rightarrow> Inl e
      | Inr g' \<Rightarrow> Inr (g'\<lparr>score := 0\<rparr>))"

definition shoot_projectile :: "Env \<Rightarrow> FlappyBird \<Rightarrow> FlappyBird" where
  "shoot_projectile env g =
     (let current_time = get_ticks env in
      if current_time - last_shot g > shot_cooldown g then
        g\<lparr>projectiles := projectiles g @
             [Projectile_init (rect_right (rect (player g))) (rect_centery (rect (player g))) 10],
          last_shot := current_time\<rparr>
      else g)"

definition spawn_enemy :: "Env \<Rightarrow> FlappyBird \<Rightarrow> error + FlappyBird" where
  "spawn_enemy env g =
     (case randint (enemies_height (config g)) (height g - enemies_height (config g))
             (rand_enemy_y env) of
        Inl e \<Rightarrow> Inl e
      | Inr b \<Rightarrow>
          Inr (g\<lparr>enemies := enemies g @
                 [Enemy_init (width g) b (config g) (enemy_speed_multiplier (config g))
                    (if rand_choice env then 1 else - 1)
                    (frac (rand_random env) * 10)]\<rparr>))"

definition check_collisions :: "FlappyBird \<Rightarrow> bool" where
  "check_collisions g \<longleftrightarrow>
     list_ex (\<lambda>w. colliderect (rect (player g)) (rect w)) (walls g) \<or>
     list_ex (\<lambda>e. colliderect (rect (player g)) (rect e)) (enemies g) \<or>
     rect_top (rect (player g)) \<le> 0 \<or> rect_bottom (rect (player g)) \<ge> height g"

section \<open>One simulated tick\<close>

text \<open>
  The loops of \<open>update_game_objects\<close> iterate over a copy of a list and remove the object
  at hand from the live list (objects compare by identity, and every object is in its list
  once). In the recursion the first argument is what is left of the copy, and \<open>kept\<close> is
  the part of the live list that has been visited: the updated objects that stay.
\<close>

fun walls_loop :: "Wall list \<Rightarrow> Wall list \<times> real \<Rightarrow> Wall list \<times> real" where
  "walls_loop [] st = st"
| "walls_loop (wall # rest) (kept, s) =
     (let wall' = Wall_update wall in
      if rect_right (rect wall') < 0 then walls_loop rest (kept, s + 1 / 2)
      else walls_loop rest (kept @ [wall'], s))"

fun enemies_loop :: "Enemy list \<Rightarrow> Enemy list \<Rightarrow> Enemy list" where
  "enemies_loop [] kept = kept"
| "enemies_loop (enemy # rest) kept =
     (let enemy' = Enemy_update enemy in
      if rect_right (rect enemy') < 0 then enemies_loop rest kept
      else enemies_loop rest (kept @ [enemy']))"

text \<open>
  The inner loop of the projectile pass: the live enemies without the first one that the
  rectangle hits, or \<open>None\<close> when it hits none (the \<open>break\<close> ends the search at the first).
\<close>

fun hit_enemy :: "Rect \<Rightarrow> Enemy list \<Rightarrow> Enemy list option" where
  "hit_enemy r [] = None"
| "hit_enemy r (enemy # rest) =
     (if colliderect r (rect enemy) then Some rest
      else map_option ((#) enemy) (hit_enemy r rest))"

fun projectiles_loop ::
  "int \<Rightarrow> Projectile list \<Rightarrow> Projectile list \<times> Enemy list \<times> real \<Rightarrow>
   Projectile list \<times> Enemy list \<times> real" where
  "projectiles_loop wd [] st = st"
| "projectiles_loop wd (projectile # rest) (kept, es, s) =
     (let projectile' = Projectile_update projectile in
      if rect_left (rect projectile') > wd then projectiles_loop wd rest (kept, es, s)
      else
        (case hit_enemy (rect projectile') es of
           Some es' \<Rightarrow> projectiles_loop wd rest (kept, es', s + 2)
         | None \<Rightarrow> projectiles_loop wd rest (kept @ [projectile'], es, s)))"

definition update_walls :: "FlappyBird \<Rightarrow> FlappyBird" where
  "update_walls g =
     (case walls_loop (walls g) ([], score g) of (ws, s) \<Rightarrow> g\<lparr>walls := ws, score := s\<rparr>)"

definition update_enemies :: "FlappyBird \<Rightarrow> FlappyBird" where
  "update_enemies g = g\<lparr>enemies := enemies_loop (enemies g) []\<rparr>"

definition update_projectiles :: "FlappyBird \<Rightarrow> FlappyBird" where
  "update_projectiles g =
     (case projectiles_loop (width g) (projectiles g) ([], enemies g, score g) of
        (ps, es, s) \<Rightarrow> g\<lparr>projectiles := ps, enemies := es, score := s\<rparr>)"

definition spawn_walls :: "Env \<Rightarrow> FlappyBird \<Rightarrow> error + FlappyBird" where
  "spawn_walls env g =
     (let current_time = get_ticks env in
      if of_int (current_time - last_wall g) > wall_frequency (config g) then
        (case create_wall_pair env g of
           Inl e \<Rightarrow> Inl e
         | Inr g' \<Rightarrow> Inr (g'\<lparr>last_wall := current_time\<rparr>))
      else Inr g)"

definition spawn_enemies :: "Env \<Rightarrow> FlappyBird \<Rightarrow> error + FlappyBird" where
  "spawn_enemies env g =
     (let current_time = get_ticks env in
      if of_int (current_time - last_enemy g) > enemies_spawn_rate (config g) then
        (if int (length (enemies g)) < enemy_count (config g) then
           (case spawn_enemy env g of
              Inl e \<Rightarrow> Inl e
            | Inr g' \<Rightarrow> Inr (g'\<lparr>last_enemy := current_time\<rparr>))
         else Inr g)
      else Inr g)"

definition update_game_objects :: "Env \<Rightarrow> FlappyBird \<Rightarrow> error + FlappyBird" where
  "update_game_objects env g =
     (case spawn_walls env
             (update_projectiles (update_enemies (update_walls
                (g\<lparr>player := Player_update (player g)\<rparr>)))) of
        Inl e \<Rightarrow> Inl e
      | Inr g' \<Rightarrow> spawn_enemies env g')"

section \<open>Events, frames and the main loop\<close>

datatype EventType = QUIT | MOUSEBUTTONDOWN | KEYDOWN | OTHER_EVENT

datatype Key = K_SPACE | K_RIGHT | K_OTHER

text \<open>
  A pygame event: its type and the attributes the loop reads (\<open>button\<close> and \<open>pos\<close> of a
  mouse event, \<open>key\<close> of a key event; an attribute is read only under the matching type).
\<close>

record Event =
  event_type :: EventType
  event_button :: int
  event_pos :: "int \<times> int"
  event_key :: Key

text \<open>
  The body of \<open>for event in pygame.event.get()\<close>, branch by branch in the order of the
  source, the second \<open>MOUSEBUTTONDOWN\<close> branch included.
\<close>

definition handle_event :: "Event \<Rightarrow> Env \<Rightarrow> FlappyBird \<Rightarrow> error + FlappyBird" where
  "handle_event event env g =
     (if event_type event = QUIT then Inr (g\<lparr>running := False\<rparr>)
      else if event_type event = MOUSEBUTTONDOWN then
        (if event_button event = 1 then
           (if game_state g = START \<and> start_button_rect g \<noteq> None then
              (if collidepoint (the (start_button_rect g)) (event_pos event)
               then Inr (g\<lparr>game_state := PLAYING\<rparr>) else Inr g)
            else Inr g)
         else Inr g)
      else if event_type event = MOUSEBUTTONDOWN then
        (if event_button event = 1 then
           (if game_state g = START \<and> start_button_rect g \<noteq> None then
              (if collidepoint (the (start_button_rect g)) (event_pos event)
               then Inr (g\<lparr>game_state := PLAYING\<rparr>) else Inr g)
            else if game_state g = PLAYING then Inr (shoot_projectile env g)
            else Inr g)
         else Inr g)
      else if event_type event = KEYDOWN then
        (if event_key event = K_SPACE then
           (if game_state g = PLAYING then Inr (g\<lparr>player := Player_flap (player g)\<rparr>)
            else if game_state g = GAME_OVER then
              (case reset_game env g of
                 Inl e \<Rightarrow> Inl e
               | Inr g' \<Rightarrow> Inr (g'\<lparr>game_state := PLAYING\<rparr>))
            else Inr g)
         else if event_key event = K_RIGHT \<and> game_state g = PLAYING
           then Inr (shoot_projectile env g)
         else Inr g)
      else Inr g)"

text \<open>The \<open>if self.game_state == "PLAYING"\<close> block of \<open>run\<close>.\<close>

definition simulate :: "Env \<Rightarrow> FlappyBird \<Rightarrow> error + FlappyBird" where
  "simulate env g =
     (if game_state g = PLAYING then
        (case update_game_objects env g of
           Inl e \<Rightarrow> Inl e
         | Inr g' \<Rightarrow>
             (if check_collisions g' then
                Inr ((if score g' > of_int (high_score g')
                      then save_high_score (g'\<lparr>high_score := py_trunc (score g')\<rparr>)
                      else g')\<lparr>game_state := GAME_OVER\<rparr>)
              else Inr g'))
      else Inr g)"

text \<open>
  Drawing writes two attributes: \<open>draw_start_screen\<close> stores the rectangle of the start
  button, which \<open>create_button\<close> derives from the rendered size of its text, and
  \<open>draw_scrolling_background\<close> advances the scroll offset while playing.
\<close>

definition create_button :: "int \<times> int \<Rightarrow> int \<Rightarrow> FlappyBird \<Rightarrow> Rect" where
  "create_button sz y_position g =
     (let text_rect = Rect_init (width g div 2 - fst sz div 2) (y_position - snd sz div 2)
                        (fst sz) (snd sz);
          padding = 20;
          button_rect = Rect_init (rect_x text_rect - padding) (rect_y text_rect - padding)
                          (rect_w text_rect + 2 * padding) (rect_h text_rect + 2 * padding)
      in button_rect\<lparr>rect_x := width g div 2 - rect_w button_rect div 2\<rparr>)"

definition draw :: "Env \<Rightarrow> FlappyBird \<Rightarrow> FlappyBird" where
  "draw env g =
     (if game_state g = START then
        g\<lparr>start_button_rect := Some (create_button (text_size env) (height g div 2) g)\<rparr>
      else if game_state g = PLAYING then g\<lparr>bg_scroll := bg_scroll g + bg_scroll_speed g\<rparr>
      else g)"

fun handle_events :: "(Event \<times> Env) list \<Rightarrow> FlappyBird \<Rightarrow> error + FlappyBird" where
  "handle_events [] g = Inr g"
| "handle_events ((event, env) # rest) g =
     (case handle_event event env g of
        Inl e \<Rightarrow> Inl e
      | Inr g' \<Rightarrow> handle_events rest g')"

text \<open>
  One iteration of \<open>while running\<close>: the pending events with what each handler reads, then
  the tick and the drawing with what they read.
\<close>

definition frame :: "(Event \<times> Env) list \<times> Env \<Rightarrow> FlappyBird \<Rightarrow> error + FlappyBird" where
  "frame inp g =
     (case handle_events (fst inp) g of
        Inl e \<Rightarrow> Inl e
      | Inr g1 \<Rightarrow>
          (case simulate (snd inp) g1 of
             Inl e \<Rightarrow> Inl e
           | Inr g2 \<Rightarrow> Inr (draw (snd inp) g2)))"

text \<open>
  \<open>FlappyBird.__init__\<close> followed by the first statement of \<open>run\<close>. The attributes that
  \<open>reset_game\<close> creates have no value before it; the record gives them the values that
  \<open>reset_game\<close> overwrites.
\<close>

definition FlappyBird_init :: "Config \<Rightarrow> string option \<Rightarrow> Env \<Rightarrow> error + FlappyBird" where
  "FlappyBird_init cfg file env =
     (case load_high_score file of
        Inl e \<Rightarrow> Inl e
      | Inr hs \<Rightarrow>
          reset_game env
            \<lparr>config = cfg, width = window_width cfg, height = window_height cfg,
             current_level = 0, score = 0, high_score = hs, game_state = START,
             bg_scroll = 0, bg_scroll_speed = walls_speed cfg,
             projectiles = [], last_shot = 0, shot_cooldown = 500,
             player = Player_init (window_width cfg div 4) (window_height cfg div 2) cfg,
             walls = [], enemies = [], last_wall = 0, last_enemy = 0,
             start_button_rect = None, running = True, highscore_txt = file\<rparr>)"

text \<open>
  The main loop over a finite supply of frame inputs; it stops when \<open>running\<close> is false.
\<close>

fun run :: "((Event \<times> Env) list \<times> Env) list \<Rightarrow> FlappyBird \<Rightarrow> error + FlappyBird" where
  "run [] g = Inr g"
| "run (inp # rest) g =
     (if running g then
        (case frame inp g of
           Inl e \<Rightarrow> Inl e
         | Inr g' \<Rightarrow> run rest g')
      else Inr g)"

text \<open>
  The states the program passes through: the state after startup, and from such a state the
  state after one more event, one more tick or one more drawing.
\<close>

inductive reachable :: "FlappyBird \<Rightarrow> bool" where
  reachable_init: "FlappyBird_init cfg file env = Inr g \<Longrightarrow> reachable g"
| reachable_event: "reachable g \<Longrightarrow> handle_event event env g = Inr g' \<Longrightarrow> reachable g'"
| reachable_simulate: "reachable g \<Longrightarrow> simulate env g = Inr g' \<Longrightarrow> reachable g'"
| reachable_draw: "reachable g \<Longrightarrow> reachable (draw env g)"

section \<open>Obstacle pairs\<close>

text \<open>
  A list of wall segments made of pairs \<open>top, bottom\<close> whose two segments agree on the
  horizontal position, the width and the speed, in the attributes and in the rectangle.
\<close>

fun paired :: "Wall list \<Rightarrow> bool" where
  "paired [] \<longleftrightarrow> True"
| "paired [w] \<longleftrightarrow> False"
| "paired (t # b # ws) \<longleftrightarrow>
     pos_x t = pos_x b \<and> obj_width t = obj_width b \<and> wall_speed t = wall_speed b \<and>
     rect_x (rect t) = rect_x (rect b) \<and> rect_w (rect t) = rect_w (rect b) \<and> paired ws"

text \<open>
  What every reachable state satisfies: the walls come in aligned pairs, the score is a whole
  number, and the configured gap fits the screen (startup has drawn a gap centre).
\<close>

definition game_inv :: "FlappyBird \<Rightarrow> bool" where
  "game_inv g \<longleftrightarrow>
     paired (walls g) \<and> score g \<in> \<int> \<and> walls_gap (config g) \<le> height g - walls_gap (config g)"

section \<open>The documented triggers\<close>

text \<open>
  The inputs the specification documents as triggers, state by state: the quit signal in
  every state; in \<open>START\<close> a left press on the start control; in \<open>PLAYING\<close> the flap key,
  the fire key and a left press; in \<open>GAME_OVER\<close> the restart key.
\<close>

definition accepted_trigger :: "FlappyBird \<Rightarrow> Event \<Rightarrow> bool" where
  "accepted_trigger g event \<longleftrightarrow>
     event_type event = QUIT \<or>
     (game_state g = START \<and> event_type event = MOUSEBUTTONDOWN \<and> event_button event = 1 \<and>
        (case start_button_rect g of
           None \<Rightarrow> False
         | Some r \<Rightarrow> collidepoint r (event_pos event))) \<or>
     (game_state g = PLAYING \<and>
        ((event_type event = MOUSEBUTTONDOWN \<and> event_button event = 1) \<or>
         (event_type event = KEYDOWN \<and> (event_key event = K_SPACE \<or> event_key event = K_RIGHT)))) \<or>
     (game_state g = GAME_OVER \<and> event_type event = KEYDOWN \<and> event_key event = K_SPACE)"

section \<open>A sample run\<close>

text \<open>
  Concrete inputs for the evaluations below: a configuration with an 800 high screen and a
  gap of 150 (and a gravity that ends the first tick at the bottom edge), the readings of
  one startup, and the states of a short run: after startup, after the first drawing, after
  the click on the start button, and after the first tick, which ends the session.
\<close>

definition example_config :: Config where
  "example_config =
     \<lparr>window_width = 400, window_height = 800,
      player_width = 40, player_height = 30,
      player_gravity = 400, player_flap_strength = - 8, player_max_velocity = 400,
      walls_width = 80, walls_gap = 150, walls_speed = 3,
      enemies_width = 40, enemies_height = 40, enemies_speed = 2, enemies_spawn_rate = 3000,
      wall_speed_multiplier = 1, enemy_speed_multiplier = 1,
      wall_frequency = 1500, enemy_count = 3\<rparr>"

definition example_env :: Env where
  "example_env =
     \<lparr>get_ticks = 1000, get_ticks2 = 1000, rand_gap = 250, rand_enemy_y = 0,
      rand_choice = True, rand_random = 0, text_size = (180, 34)\<rparr>"

definition example_start :: FlappyBird where
  "example_start =
     \<lparr>config = example_config, width = 400, height = 800, current_level = 0,
      score = 0, high_score = 0, game_state = START, bg_scroll = 0, bg_scroll_speed = 3,
      projectiles = [], last_shot = 1000, shot_cooldown = 500,
      player = Player_init 100 400 example_config,
      walls = [Wall_init 400 0 80 325 3, Wall_init 400 475 80 325 3],
      enemies = [], last_wall = 0, last_enemy = 1000,
      start_button_rect = None, running = True, highscore_txt = None\<rparr>"

definition example_drawn :: FlappyBird where
  "example_drawn = example_start\<lparr>start_button_rect := Some (Rect_init 90 363 220 74)\<rparr>"

definition example_playing :: FlappyBird where
  "example_playing = example_drawn\<lparr>game_state := PLAYING\<rparr>"

definition example_over :: FlappyBird where
  "example_over =
     example_playing
       \<lparr>player := Player_update (Player_init 100 400 example_config),
        walls := [Wall_update (Wall_init 400 0 80 325 3), Wall_update (Wall_init 400 475 80 325 3),
                  Wall_init 400 0 80 325 3, Wall_init 400 475 80 325 3],
        last_wall := 2000, game_state := GAME_OVER\<rparr>"

text \<open>The state in which startup spawns its pair when the configured gap is 151.\<close>

definition example_odd_gap :: FlappyBird where
  "example_odd_gap = example_start\<lparr>config := example_config\<lparr>walls_gap := 151\<rparr>, walls := []\<rparr>"

text \<open>A playing state with one projectile in flight and three enemies.\<close>

definition example_enemies :: "Enemy list" where
  "example_enemies =
     [Enemy_init 300 100 example_config 1 1 0,
      Enemy_init 150 400 example_config 1 (- 1) 0,
      Enemy_init 160 410 example_config 1 1 0]"

definition example_armed :: FlappyBird where
  "example_armed =
     example_playing\<lparr>projectiles := [Projectile_init 140 415 10], enemies := example_enemies\<rparr>"

text \<open>
  A playing state whose projectile moves past the right edge in the next tick, onto the box
  of an enemy that is entering the screen.
\<close>

definition example_edge :: FlappyBird where
  "example_edge =
     example_playing\<lparr>projectiles := [Projectile_init 395 415 10],
                      enemies := [Enemy_init 398 400 example_config 1 1 0]\<rparr>"

definition example_click :: Event where
  "example_click =
     \<lparr>event_type = MOUSEBUTTONDOWN, event_button = 1, event_pos = (200, 400),
      event_key = K_OTHER\<rparr>"

definition example_space :: Event where
  "example_space =
     \<lparr>event_type = KEYDOWN, event_button = 0, event_pos = (0, 0), event_key = K_SPACE\<rparr>"

definition example_right :: Event where
  "example_right =
     \<lparr>event_type = KEYDOWN, event_button = 0, event_pos = (0, 0), event_key = K_RIGHT\<rparr>"

section \<open>Invariants of the simulation\<close>


lemma py_trunc_of_int: "py_trunc (of_int n) = n"
  by (simp add: py_trunc_def)

lemma Wall_update_fields:
  "pos_x (Wall_update w) = pos_x w - wall_speed w"
  "wall_speed (Wall_update w) = wall_speed w"
  "obj_width (Wall_update w) = obj_width w"
  "obj_height (Wall_update w) = obj_height w"
  "rect_x (rect (Wall_update w)) = py_trunc (pos_x w - wall_speed w)"
  "rect_w (rect (Wall_update w)) = rect_w (rect w)"
  "rect_h (rect (Wall_update w)) = rect_h (rect w)"
  by (simp_all add: Wall_update_def Let_def)

lemma paired_append: "paired xs \<Longrightarrow> paired ys \<Longrightarrow> paired (xs @ ys)"
  by (induction xs rule: paired.induct) simp_all

lemma paired_even: "paired ws \<Longrightarrow> even (length ws)"
  by (induction ws rule: paired.induct) simp_all

lemma pair_culled_together:
  assumes "pos_x t = pos_x b" "wall_speed t = wall_speed b" "rect_w (rect t) = rect_w (rect b)"
  shows "rect_right (rect (Wall_update t)) = rect_right (rect (Wall_update b))"
  using assms by (simp add: rect_right_def Wall_update_fields)

lemma walls_loop_paired:
  "paired ws \<Longrightarrow>
   \<exists>k ws'. walls_loop ws (kept, s) = (kept @ ws', s + of_nat k) \<and> paired ws' \<and>
            length ws = length ws' + 2 * k"
proof (induction ws arbitrary: kept s rule: paired.induct)
  case 1
  show ?case by (rule exI [of _ 0]) simp
next
  case (2 w)
  then show ?case by simp
next
  case (3 t b ws)
  from "3.prems" have agree: "pos_x t = pos_x b" "obj_width t = obj_width b"
    "wall_speed t = wall_speed b" "rect_x (rect t) = rect_x (rect b)"
    "rect_w (rect t) = rect_w (rect b)" and rest: "paired ws"
    by simp_all
  have same: "rect_right (rect (Wall_update t)) = rect_right (rect (Wall_update b))"
    using agree by (rule_tac pair_culled_together)
  show ?case
  proof (cases "rect_right (rect (Wall_update t)) < 0")
    case True
    from "3.IH" [OF rest, of kept "1 + s"] obtain k ws' where
      h: "walls_loop ws (kept, 1 + s) = (kept @ ws', 1 + s + of_nat k)" "paired ws'"
         "length ws = length ws' + 2 * k"
      by blast
    have "walls_loop (t # b # ws) (kept, s) = walls_loop ws (kept, 1 + s)"
      using True same by (simp add: Let_def)
    also have "\<dots> = (kept @ ws', s + of_nat (Suc k))"
      using h(1) by (simp add: algebra_simps)
    finally have "walls_loop (t # b # ws) (kept, s) = (kept @ ws', s + of_nat (Suc k))" .
    moreover have "length (t # b # ws) = length ws' + 2 * Suc k"
      using h(3) by simp
    ultimately show ?thesis using h(2) by blast
  next
    case False
    from "3.IH" [OF rest, of "kept @ [Wall_update t, Wall_update b]" s] obtain k ws' where
      h: "walls_loop ws (kept @ [Wall_update t, Wall_update b], s) =
            ((kept @ [Wall_update t, Wall_update b]) @ ws', s + of_nat k)" "paired ws'"
         "length ws = length ws' + 2 * k"
      by blast
    have "walls_loop (t # b # ws) (kept, s) =
            (kept @ (Wall_update t # Wall_update b # ws'), s + of_nat k)"
      using False same h(1) by (simp add: Let_def)
    moreover have "paired (Wall_update t # Wall_update b # ws')"
      using agree h(2) by (simp add: Wall_update_fields)
    moreover have "length (t # b # ws) = length (Wall_update t # Wall_update b # ws') + 2 * k"
      using h(3) by simp
    ultimately show ?thesis by blast
  qed
qed


lemma create_wall_pair_walls:
  assumes "create_wall_pair env g = Inr g'"
  shows "\<exists>gap_y. walls_gap (config g) \<le> gap_y \<and> gap_y \<le> height g - walls_gap (config g) \<and>
           g' = g\<lparr>walls := walls g @
             [Wall_init (width g) 0 (walls_width (config g))
                (gap_y - walls_gap (config g) div 2)
                (walls_speed (config g) * wall_speed_multiplier (config g)),
              Wall_init (width g) (gap_y + walls_gap (config g) div 2) (walls_width (config g))
                (height g - (gap_y + walls_gap (config g) div 2))
                (walls_speed (config g) * wall_speed_multiplier (config g))]\<rparr>"
proof -
  let ?gap = "walls_gap (config g)"
  let ?hi = "height g - ?gap"
  from assms have range: "?gap \<le> ?hi"
    by (auto simp: create_wall_pair_def randint_def Let_def split: if_splits)
  let ?gap_y = "?gap + rand_gap env mod (?hi - ?gap + 1)"
  have pos: "0 < ?hi - ?gap + 1" using range by linarith
  have "0 \<le> rand_gap env mod (?hi - ?gap + 1)" "rand_gap env mod (?hi - ?gap + 1) < ?hi - ?gap + 1"
    using pos by (rule pos_mod_sign, rule pos_mod_bound)
  then have "?gap \<le> ?gap_y" "?gap_y \<le> ?hi" by linarith+
  moreover from assms range have "g' = g\<lparr>walls := walls g @
             [Wall_init (width g) 0 (walls_width (config g))
                (?gap_y - ?gap div 2)
                (walls_speed (config g) * wall_speed_multiplier (config g)),
              Wall_init (width g) (?gap_y + ?gap div 2) (walls_width (config g))
                (height g - (?gap_y + ?gap div 2))
                (walls_speed (config g) * wall_speed_multiplier (config g))]\<rparr>"
    by (simp add: create_wall_pair_def randint_def Let_def)
  ultimately show ?thesis by blast
qed

lemma create_wall_pair_succeeds:
  "walls_gap (config g) \<le> height g - walls_gap (config g) \<Longrightarrow> \<exists>g'. create_wall_pair env g = Inr g'"
  by (simp add: create_wall_pair_def randint_def Let_def)

lemma paired_new_pair: "paired [Wall_init a b c d s, Wall_init a b' c d' s]"
  by (simp add: Wall_init_def Rect_init_def)

lemma create_wall_pair_inv:
  assumes "create_wall_pair env g = Inr g'" "game_inv g"
  shows "game_inv g'"
proof -
  from create_wall_pair_walls [OF assms(1)] obtain gap_y where
    "g' = g\<lparr>walls := walls g @
             [Wall_init (width g) 0 (walls_width (config g))
                (gap_y - walls_gap (config g) div 2)
                (walls_speed (config g) * wall_speed_multiplier (config g)),
              Wall_init (width g) (gap_y + walls_gap (config g) div 2) (walls_width (config g))
                (height g - (gap_y + walls_gap (config g) div 2))
                (walls_speed (config g) * wall_speed_multiplier (config g))]\<rparr>"
    by blast
  moreover have "paired (walls g)" using assms(2) by (simp add: game_inv_def)
  ultimately show ?thesis
    using assms(2) paired_append [OF _ paired_new_pair] by (simp add: game_inv_def)
qed

lemma reset_game_inv:
  assumes "reset_game env g = Inr g'"
  shows "game_inv g'"
proof -
  let ?g0 = "g\<lparr>player := Player_init (width g div 4) (height g div 2) (config g),
                walls := [], enemies := [], projectiles := [],
                last_wall := 0, last_enemy := get_ticks env, last_shot := get_ticks2 env\<rparr>"
  from assms obtain g1 where g1: "create_wall_pair env ?g0 = Inr g1" and g': "g' = g1\<lparr>score := 0\<rparr>"
    by (auto simp: reset_game_def split: sum.splits)
  from g1 have "walls_gap (config ?g0) \<le> height ?g0 - walls_gap (config ?g0)"
    by (auto simp: create_wall_pair_def randint_def Let_def split: if_splits)
  then have "game_inv (?g0\<lparr>score := 0\<rparr>)"
    by (simp add: game_inv_def)
  moreover have "create_wall_pair env (?g0\<lparr>score := 0\<rparr>) = Inr g'"
    using g1 g' by (auto simp: create_wall_pair_def Let_def split: sum.splits)
  ultimately show ?thesis by (rule create_wall_pair_inv [rotated])
qed

lemma projectiles_loop_score:
  "s \<in> \<int> \<Longrightarrow> snd (snd (projectiles_loop wd ps (kept, es, s))) \<in> \<int>"
  by (induction ps arbitrary: kept es s) (simp_all add: Let_def split: option.splits)

lemma update_walls_inv: "game_inv g \<Longrightarrow> game_inv (update_walls g)"
proof -
  assume inv: "game_inv g"
  then have "paired (walls g)" by (simp add: game_inv_def)
  from walls_loop_paired [OF this, of "[]" "score g"] obtain k ws' where
    "walls_loop (walls g) ([], score g) = (ws', score g + of_nat k)" "paired ws'"
    by auto
  with inv show ?thesis by (simp add: update_walls_def game_inv_def)
qed

lemma update_enemies_inv: "game_inv g \<Longrightarrow> game_inv (update_enemies g)"
  by (simp add: update_enemies_def game_inv_def)

lemma update_projectiles_inv: "game_inv g \<Longrightarrow> game_inv (update_projectiles g)"
  using projectiles_loop_score [of "score g" "width g" "projectiles g" "[]" "enemies g"]
  by (cases "projectiles_loop (width g) (projectiles g) ([], enemies g, score g)")
     (simp add: update_projectiles_def game_inv_def)


lemma spawn_walls_inv:
  assumes "game_inv g" "spawn_walls env g = Inr g'"
  shows "game_inv g'"
proof (cases "of_int (get_ticks env - last_wall g) > wall_frequency (config g)")
  case True
  with assms(2) obtain g1 where g1: "create_wall_pair env g = Inr g1"
    and g': "g' = g1\<lparr>last_wall := get_ticks env\<rparr>"
    by (auto simp: spawn_walls_def Let_def split: sum.splits)
  from create_wall_pair_inv [OF g1 assms(1)] g' show ?thesis
    by (simp add: game_inv_def)
next
  case False
  with assms show ?thesis by (simp add: spawn_walls_def Let_def)
qed

lemma spawn_enemy_inv:
  assumes "game_inv g" "spawn_enemy env g = Inr g'"
  shows "game_inv g'"
  using assms by (auto simp: spawn_enemy_def game_inv_def split: sum.splits)

lemma spawn_enemies_inv:
  assumes "game_inv g" "spawn_enemies env g = Inr g'"
  shows "game_inv g'"
proof (cases "of_int (get_ticks env - last_enemy g) > enemies_spawn_rate (config g) \<and>
              int (length (enemies g)) < enemy_count (config g)")
  case True
  with assms(2) obtain g1 where g1: "spawn_enemy env g = Inr g1"
    and g': "g' = g1\<lparr>last_enemy := get_ticks env\<rparr>"
    by (auto simp: spawn_enemies_def Let_def split: sum.splits)
  from spawn_enemy_inv [OF assms(1) g1] g' show ?thesis
    by (simp add: game_inv_def)
next
  case False
  with assms show ?thesis by (auto simp: spawn_enemies_def Let_def split: if_splits)
qed

lemma update_game_objects_inv:
  assumes "game_inv g" "update_game_objects env g = Inr g'"
  shows "game_inv g'"
proof -
  let ?g4 = "update_projectiles (update_enemies (update_walls
                (g\<lparr>player := Player_update (player g)\<rparr>)))"
  have "game_inv (g\<lparr>player := Player_update (player g)\<rparr>)"
    using assms(1) by (simp add: game_inv_def)
  then have inv4: "game_inv ?g4"
    by (intro update_projectiles_inv update_enemies_inv update_walls_inv)
  from assms(2) obtain g5 where g5: "spawn_walls env ?g4 = Inr g5"
    and g': "spawn_enemies env g5 = Inr g'"
    by (auto simp: update_game_objects_def split: sum.splits)
  from spawn_enemies_inv [OF spawn_walls_inv [OF inv4 g5] g'] show ?thesis .
qed

lemma shoot_projectile_inv: "game_inv g \<Longrightarrow> game_inv (shoot_projectile env g)"
  by (simp add: shoot_projectile_def game_inv_def Let_def)


lemma handle_event_QUIT:
  "event_type event = QUIT \<Longrightarrow> handle_event event env g = Inr (g\<lparr>running := False\<rparr>)"
  by (simp add: handle_event_def)

lemma handle_event_MOUSEBUTTONDOWN:
  "event_type event = MOUSEBUTTONDOWN \<Longrightarrow>
   handle_event event env g =
     (if event_button event = 1 \<and> game_state g = START \<and> start_button_rect g \<noteq> None \<and>
         collidepoint (the (start_button_rect g)) (event_pos event)
      then Inr (g\<lparr>game_state := PLAYING\<rparr>) else Inr g)"
  by (auto simp: handle_event_def)

lemma handle_event_KEYDOWN:
  "event_type event = KEYDOWN \<Longrightarrow>
   handle_event event env g =
     (if event_key event = K_SPACE then
        (if game_state g = PLAYING then Inr (g\<lparr>player := Player_flap (player g)\<rparr>)
         else if game_state g = GAME_OVER then
           (case reset_game env g of
              Inl e \<Rightarrow> Inl e
            | Inr g' \<Rightarrow> Inr (g'\<lparr>game_state := PLAYING\<rparr>))
         else Inr g)
      else if event_key event = K_RIGHT \<and> game_state g = PLAYING
        then Inr (shoot_projectile env g)
      else Inr g)"
  by (simp add: handle_event_def)

lemma handle_event_OTHER:
  "event_type event = OTHER_EVENT \<Longrightarrow> handle_event event env g = Inr g"
  by (simp add: handle_event_def)

lemma game_inv_game_state: "game_inv (g\<lparr>game_state := st\<rparr>) = game_inv g"
  by (simp add: game_inv_def)

lemma handle_event_inv:
  assumes "game_inv g" "handle_event event env g = Inr g'"
  shows "game_inv g'"
proof (cases "event_type event")
  case QUIT
  with assms show ?thesis by (auto simp: handle_event_QUIT game_inv_def)
next
  case MOUSEBUTTONDOWN
  with assms show ?thesis
    by (auto simp: handle_event_MOUSEBUTTONDOWN game_inv_game_state split: if_splits)
next
  case KEYDOWN
  show ?thesis
  proof (cases "event_key event = K_SPACE \<and> game_state g = GAME_OVER")
    case True
    with assms(2) KEYDOWN obtain g1 where g1: "reset_game env g = Inr g1"
      and g': "g' = g1\<lparr>game_state := PLAYING\<rparr>"
      by (auto simp: handle_event_KEYDOWN split: sum.splits)
    from reset_game_inv [OF g1] g' show ?thesis by (simp add: game_inv_game_state)
  next
    case False
    with assms KEYDOWN have "g' = g \<or> g' = g\<lparr>player := Player_flap (player g)\<rparr> \<or>
        g' = shoot_projectile env g"
      by (auto simp: handle_event_KEYDOWN split: if_splits)
    with assms(1) show ?thesis
      by (auto simp: shoot_projectile_inv) (simp add: game_inv_def)
  qed
next
  case OTHER_EVENT
  with assms show ?thesis by (simp add: handle_event_OTHER)
qed

lemma simulate_inv:
  assumes "game_inv g" "simulate env g = Inr g'"
  shows "game_inv g'"
proof (cases "game_state g = PLAYING")
  case True
  with assms(2) obtain g1 where g1: "update_game_objects env g = Inr g1"
    and g': "g' = (if check_collisions g1 then
                (if score g1 > of_int (high_score g1)
                      then save_high_score (g1\<lparr>high_score := py_trunc (score g1)\<rparr>)
                      else g1)\<lparr>game_state := GAME_OVER\<rparr> else g1)"
    by (auto simp: simulate_def split: sum.splits if_splits)
  from update_game_objects_inv [OF assms(1) g1] have "game_inv g1" .
  with g' show ?thesis
    by (simp add: game_inv_def save_high_score_def)
next
  case False
  with assms show ?thesis by (simp add: simulate_def)
qed

lemma draw_inv: "game_inv g \<Longrightarrow> game_inv (draw env g)"
  by (simp add: draw_def game_inv_def)

lemma init_inv: "FlappyBird_init cfg file env = Inr g \<Longrightarrow> game_inv g"
  by (auto simp: FlappyBird_init_def split: sum.splits dest: reset_game_inv)

lemma reachable_inv: "reachable g \<Longrightarrow> game_inv g"
proof (induction rule: reachable.induct)
  case (reachable_init cfg content env g)
  then show ?case by (rule init_inv)
next
  case (reachable_event g event env g')
  then show ?case by (blast intro: handle_event_inv)
next
  case (reachable_simulate g env g')
  then show ?case by (blast intro: simulate_inv)
next
  case (reachable_draw g env)
  then show ?case by (simp add: draw_inv)
qed

text \<open>
  Every state of the main loop is reachable in this sense: a frame, and so a run of frames,
  leads from reachable states to reachable states.
\<close>

lemma handle_events_reachable:
  "reachable g \<Longrightarrow> handle_events evs g = Inr g' \<Longrightarrow> reachable g'"
proof (induction evs arbitrary: g)
  case Nil
  then show ?case by simp
next
  case (Cons ev evs)
  obtain event env where ev: "ev = (event, env)" by (cases ev)
  from Cons.prems(2) obtain g1 where g1: "handle_event event env g = Inr g1"
    and rest: "handle_events evs g1 = Inr g'"
    by (auto simp: ev split: sum.splits)
  from reachable_event [OF Cons.prems(1) g1] rest show ?case by (rule Cons.IH)
qed

lemma frame_reachable:
  assumes "reachable g" "frame inp g = Inr g'"
  shows "reachable g'"
proof -
  from assms(2) obtain g1 g2 where g1: "handle_events (fst inp) g = Inr g1"
    and g2: "simulate (snd inp) g1 = Inr g2" and g': "g' = draw (snd inp) g2"
    by (auto simp: frame_def split: sum.splits)
  from handle_events_reachable [OF assms(1) g1] have "reachable g1" .
  from reachable_simulate [OF this g2] have "reachable g2" .
  then show ?thesis unfolding g' by (rule reachable_draw)
qed

lemma run_reachable:
  "reachable g \<Longrightarrow> run inps g = Inr g' \<Longrightarrow> reachable g'"
proof (induction inps arbitrary: g)
  case Nil
  then show ?case by simp
next
  case (Cons inp inps)
  show ?case
  proof (cases "running g")
    case True
    with Cons.prems(2) obtain g1 where g1: "frame inp g = Inr g1"
      and rest: "run inps g1 = Inr g'"
      by (auto split: sum.splits)
    from frame_reachable [OF Cons.prems(1) g1] rest show ?thesis by (rule Cons.IH)
  next
    case False
    with Cons.prems show ?thesis by simp
  qed
qed

lemma reset_game_succeeds:
  assumes "walls_gap (config g) \<le> height g - walls_gap (config g)"
  shows "\<exists>g1 top bottom. reset_game env g = Inr g1 \<and>
           g1 = g\<lparr>player := Player_init (width g div 4) (height g div 2) (config g),
                  walls := [top, bottom], enemies := [], projectiles := [],
                  last_wall := 0, last_enemy := get_ticks env, last_shot := get_ticks2 env,
                  score := 0\<rparr> \<and> paired [top, bottom]"
proof -
  let ?g0 = "g\<lparr>player := Player_init (width g div 4) (height g div 2) (config g),
                walls := [], enemies := [], projectiles := [],
                last_wall := 0, last_enemy := get_ticks env, last_shot := get_ticks2 env\<rparr>"
  have "walls_gap (config ?g0) \<le> height ?g0 - walls_gap (config ?g0)"
    using assms by simp
  from create_wall_pair_succeeds [OF this] obtain g1 where g1: "create_wall_pair env ?g0 = Inr g1"
    by blast
  from create_wall_pair_walls [OF g1] obtain gap_y where
    "g1 = ?g0\<lparr>walls := walls ?g0 @
             [Wall_init (width ?g0) 0 (walls_width (config ?g0))
                (gap_y - walls_gap (config ?g0) div 2)
                (walls_speed (config ?g0) * wall_speed_multiplier (config ?g0)),
              Wall_init (width ?g0) (gap_y + walls_gap (config ?g0) div 2) (walls_width (config ?g0))
                (height ?g0 - (gap_y + walls_gap (config ?g0) div 2))
                (walls_speed (config ?g0) * wall_speed_multiplier (config ?g0))]\<rparr>"
    by blast
  then have "reset_game env g = Inr (g\<lparr>player := Player_init (width g div 4) (height g div 2) (config g),
                  walls := [Wall_init (width g) 0 (walls_width (config g))
                (gap_y - walls_gap (config g) div 2)
                (walls_speed (config g) * wall_speed_multiplier (config g)),
              Wall_init (width g) (gap_y + walls_gap (config g) div 2) (walls_width (config g))
                (height g - (gap_y + walls_gap (config g) div 2))
                (walls_speed (config g) * wall_speed_multiplier (config g))], enemies := [], projectiles := [],
                  last_wall := 0, last_enemy := get_ticks env, last_shot := get_ticks2 env,
                  score := 0\<rparr>)"
    using g1 by (simp add: reset_game_def)
  then show ?thesis using paired_new_pair by blast
qed

lemma whole_score_exceeds:
  assumes "s \<in> \<int>"
  shows "(s > of_int h) = (py_trunc s > h)"
proof -
  from assms obtain n where "s = of_int n" by (auto elim: Ints_cases)
  then show ?thesis by (simp add: py_trunc_of_int)
qed

lemma paired_nth:
  "paired ws \<Longrightarrow> 2 * i + 1 < length ws \<Longrightarrow>
   pos_x (ws ! (2 * i)) = pos_x (ws ! (2 * i + 1)) \<and>
   obj_width (ws ! (2 * i)) = obj_width (ws ! (2 * i + 1)) \<and>
   wall_speed (ws ! (2 * i)) = wall_speed (ws ! (2 * i + 1)) \<and>
   rect_w (rect (ws ! (2 * i))) = rect_w (rect (ws ! (2 * i + 1)))"
proof (induction ws arbitrary: i rule: paired.induct)
  case 1
  then show ?case by simp
next
  case (2 w)
  then show ?case by simp
next
  case (3 t b ws)
  show ?case
  proof (cases i)
    case 0
    with "3.prems" show ?thesis by simp
  next
    case (Suc j)
    with "3.prems" have "paired ws" "2 * j + 1 < length ws" by simp_all
    from "3.IH" [OF this] Suc show ?thesis by simp
  qed
qed

section \<open>The projectile pass\<close>

lemma hit_enemy_first:
  assumes "\<forall>e \<in> set pre. \<not> colliderect r (rect e)" "colliderect r (rect enemy)"
  shows "hit_enemy r (pre @ enemy # post) = Some (pre @ post)"
  using assms by (induction pre) simp_all

lemma hit_enemy_none:
  "\<forall>e \<in> set es. \<not> colliderect r (rect e) \<Longrightarrow> hit_enemy r es = None"
  by (induction es) simp_all

lemma projectiles_loop_append:
  "projectiles_loop wd (ps1 @ ps2) st = projectiles_loop wd ps2 (projectiles_loop wd ps1 st)"
proof (induction ps1 arbitrary: st)
  case Nil
  show ?case by simp
next
  case (Cons p ps1)
  obtain kept es s where st: "st = (kept, es, s)" by (cases st)
  show ?case unfolding st
    by (simp add: Let_def Cons.IH split: option.splits)
qed

section \<open>Transitions of the game state\<close>

lemma create_wall_pair_game_state:
  "create_wall_pair env g = Inr g' \<Longrightarrow> game_state g' = game_state g"
  by (auto simp: create_wall_pair_def Let_def split: sum.splits)

lemma reset_game_game_state: "reset_game env g = Inr g' \<Longrightarrow> game_state g' = game_state g"
  by (auto simp: reset_game_def split: sum.splits dest!: create_wall_pair_game_state)

lemma shoot_projectile_game_state: "game_state (shoot_projectile env g) = game_state g"
  by (simp add: shoot_projectile_def Let_def)

lemma update_walls_game_state: "game_state (update_walls g) = game_state g"
  by (cases "walls_loop (walls g) ([], score g)") (simp add: update_walls_def)

lemma update_projectiles_game_state: "game_state (update_projectiles g) = game_state g"
  by (cases "projectiles_loop (width g) (projectiles g) ([], enemies g, score g)")
     (simp add: update_projectiles_def)

lemma spawn_walls_game_state: "spawn_walls env g = Inr g' \<Longrightarrow> game_state g' = game_state g"
  by (auto simp: spawn_walls_def Let_def split: if_splits sum.splits
           dest!: create_wall_pair_game_state)

lemma spawn_enemies_game_state: "spawn_enemies env g = Inr g' \<Longrightarrow> game_state g' = game_state g"
  by (auto simp: spawn_enemies_def spawn_enemy_def Let_def split: if_splits sum.splits)

lemma update_game_objects_game_state:
  assumes "update_game_objects env g = Inr g'"
  shows "game_state g' = game_state g"
proof -
  let ?g4 = "update_projectiles (update_enemies (update_walls
                (g\<lparr>player := Player_update (player g)\<rparr>)))"
  from assms obtain g5 where g5: "spawn_walls env ?g4 = Inr g5"
    and g': "spawn_enemies env g5 = Inr g'"
    by (auto simp: update_game_objects_def split: sum.splits)
  have "game_state ?g4 = game_state g"
    by (simp add: update_projectiles_game_state update_enemies_def update_walls_game_state)
  with spawn_walls_game_state [OF g5] spawn_enemies_game_state [OF g'] show ?thesis by simp
qed

lemma handle_event_ignored:
  assumes "\<not> accepted_trigger g event"
  shows "handle_event event env g = Inr g"
proof (cases "event_type event")
  case QUIT
  with assms show ?thesis by (simp add: accepted_trigger_def)
next
  case MOUSEBUTTONDOWN
  with assms show ?thesis
    by (auto simp: accepted_trigger_def handle_event_MOUSEBUTTONDOWN)
next
  case KEYDOWN
  with assms show ?thesis
    by (cases "game_state g") (auto simp: accepted_trigger_def handle_event_KEYDOWN)
next
  case OTHER_EVENT
  then show ?thesis by (rule handle_event_OTHER)
qed

lemma handle_event_transition:
  assumes "handle_event event env g = Inr g'" "game_state g' \<noteq> game_state g"
  shows "(game_state g = START \<and> game_state g' = PLAYING \<and>
            event_type event = MOUSEBUTTONDOWN \<and> accepted_trigger g event) \<or>
         (game_state g = GAME_OVER \<and> game_state g' = PLAYING \<and>
            event_type event = KEYDOWN \<and> event_key event = K_SPACE)"
proof (cases "event_type event")
  case QUIT
  with assms show ?thesis by (auto simp: handle_event_QUIT)
next
  case MOUSEBUTTONDOWN
  with assms show ?thesis
    by (auto simp: handle_event_MOUSEBUTTONDOWN accepted_trigger_def split: if_splits)
next
  case KEYDOWN
  show ?thesis
  proof (cases "event_key event = K_SPACE \<and> game_state g = GAME_OVER")
    case True
    with assms(1) KEYDOWN obtain g1 where "reset_game env g = Inr g1"
      and "g' = g1\<lparr>game_state := PLAYING\<rparr>"
      by (auto simp: handle_event_KEYDOWN split: sum.splits)
    with True KEYDOWN show ?thesis by simp
  next
    case False
    with assms(1) KEYDOWN have "g' = g \<or> g' = g\<lparr>player := Player_flap (player g)\<rparr> \<or>
        g' = shoot_projectile env g"
      by (auto simp: handle_event_KEYDOWN split: if_splits)
    with assms(2) show ?thesis by (auto simp: shoot_projectile_game_state)
  qed
next
  case OTHER_EVENT
  with assms show ?thesis by (simp add: handle_event_OTHER)
qed

lemma simulate_transition:
  assumes "simulate env g = Inr g'" "game_state g' \<noteq> game_state g"
  shows "game_state g = PLAYING \<and> game_state g' = GAME_OVER \<and>
         (\<exists>g1. update_game_objects env g = Inr g1 \<and> check_collisions g1)"
proof (cases "game_state g = PLAYING")
  case True
  with assms(1) obtain g1 where g1: "update_game_objects env g = Inr g1"
    and g': "g' = (if check_collisions g1 then
                (if score g1 > of_int (high_score g1)
                      then save_high_score (g1\<lparr>high_score := py_trunc (score g1)\<rparr>)
                      else g1)\<lparr>game_state := GAME_OVER\<rparr> else g1)"
    by (auto simp: simulate_def split: sum.splits if_splits)
  from update_game_objects_game_state [OF g1] have "game_state g1 = game_state g" .
  with assms(2) g' have "check_collisions g1" by (auto split: if_splits)
  with g' g1 True show ?thesis by simp
next
  case False
  with assms show ?thesis by (simp add: simulate_def)
qed

section \<open>What a tick leaves alone\<close>

lemma create_wall_pair_high_score:
  "create_wall_pair env g = Inr g' \<Longrightarrow>
   high_score g' = high_score g \<and> highscore_txt g' = highscore_txt g"
  by (auto simp: create_wall_pair_def Let_def split: sum.splits)

lemma spawn_walls_high_score:
  "spawn_walls env g = Inr g' \<Longrightarrow>
   high_score g' = high_score g \<and> highscore_txt g' = highscore_txt g"
  by (auto simp: spawn_walls_def Let_def split: if_splits sum.splits
           dest!: create_wall_pair_high_score)

lemma spawn_enemies_high_score:
  "spawn_enemies env g = Inr g' \<Longrightarrow>
   high_score g' = high_score g \<and> highscore_txt g' = highscore_txt g"
  by (auto simp: spawn_enemies_def spawn_enemy_def Let_def split: if_splits sum.splits)

lemma update_walls_high_score:
  "high_score (update_walls g) = high_score g \<and>
   highscore_txt (update_walls g) = highscore_txt g"
  by (cases "walls_loop (walls g) ([], score g)") (simp add: update_walls_def)

lemma update_projectiles_high_score:
  "high_score (update_projectiles g) = high_score g \<and>
   highscore_txt (update_projectiles g) = highscore_txt g"
  by (cases "projectiles_loop (width g) (projectiles g) ([], enemies g, score g)")
     (simp add: update_projectiles_def)

lemma update_game_objects_high_score:
  assumes "update_game_objects env g = Inr g'"
  shows "high_score g' = high_score g \<and> highscore_txt g' = highscore_txt g"
proof -
  let ?g4 = "update_projectiles (update_enemies (update_walls
                (g\<lparr>player := Player_update (player g)\<rparr>)))"
  from assms obtain g5 where g5: "spawn_walls env ?g4 = Inr g5"
    and g': "spawn_enemies env g5 = Inr g'"
    by (auto simp: update_game_objects_def split: sum.splits)
  have "high_score ?g4 = high_score g \<and> highscore_txt ?g4 = highscore_txt g"
    by (simp add: update_projectiles_high_score update_enemies_def update_walls_high_score)
  with spawn_walls_high_score [OF g5] spawn_enemies_high_score [OF g'] show ?thesis by simp
qed

section \<open>Reading back a saved high score\<close>

lemma digit_cases:
  assumes "d < (10::nat)"
  shows "d = 0 \<or> d = 1 \<or> d = 2 \<or> d = 3 \<or> d = 4 \<or> d = 5 \<or> d = 6 \<or> d = 7 \<or> d = 8 \<or> d = 9"
  using assms by presburger

lemma digit_of_nth: "d < 10 \<Longrightarrow> digit_of (''0123456789'' ! d) = Some d"
  by (drule digit_cases) (auto simp: digit_of_def upt_conv_Cons)

lemma digit_not_space: "d < 10 \<Longrightarrow> \<not> is_space (''0123456789'' ! d)"
  by (drule digit_cases) (auto simp: is_space_def)

lemma digit_not_sign:
  "d < 10 \<Longrightarrow> ''0123456789'' ! d \<noteq> CHR ''-'' \<and> ''0123456789'' ! d \<noteq> CHR ''+''"
  by (drule digit_cases) auto

lemma str_of_nat_digits:
  "str_of_nat n \<noteq> [] \<and>
   (\<forall>c \<in> set (str_of_nat n).
      digit_of c \<noteq> None \<and> \<not> is_space c \<and> c \<noteq> CHR ''-'' \<and> c \<noteq> CHR ''+'')"
proof (induction n rule: str_of_nat.induct)
  case (1 n)
  have last: "digit_of (''0123456789'' ! d) \<noteq> None \<and> \<not> is_space (''0123456789'' ! d) \<and>
              ''0123456789'' ! d \<noteq> CHR ''-'' \<and> ''0123456789'' ! d \<noteq> CHR ''+''"
    if "d < 10" for d
    using that digit_of_nth [OF that] digit_not_space [OF that] digit_not_sign [OF that]
    by simp
  show ?case
  proof (cases "n < 10")
    case True
    then have "str_of_nat n = [''0123456789'' ! n]" by (subst str_of_nat.simps) simp
    with last [OF True] show ?thesis by simp
  next
    case False
    then have s: "str_of_nat n = str_of_nat (n div 10) @ [''0123456789'' ! (n mod 10)]"
      by (subst str_of_nat.simps) simp
    have "n mod 10 < 10" by simp
    from last [OF this] "1.IH" [OF False] show ?thesis by (simp add: s)
  qed
qed

lemma digits_value_str_of_nat:
  "digits_value (str_of_nat n @ ys) acc =
     digits_value ys (acc * 10 ^ length (str_of_nat n) + n)"
proof (induction n arbitrary: ys acc rule: str_of_nat.induct)
  case (1 n)
  show ?case
  proof (cases "n < 10")
    case True
    then have "str_of_nat n = [''0123456789'' ! n]" by (subst str_of_nat.simps) simp
    with True show ?thesis by (simp add: digit_of_nth mult.commute)
  next
    case False
    then have s: "str_of_nat n = str_of_nat (n div 10) @ [''0123456789'' ! (n mod 10)]"
      by (subst str_of_nat.simps) simp
    have "digits_value (str_of_nat n @ ys) acc =
            digits_value ((''0123456789'' ! (n mod 10)) # ys)
              (acc * 10 ^ length (str_of_nat (n div 10)) + n div 10)"
      using "1.IH" [OF False, of "(''0123456789'' ! (n mod 10)) # ys" acc] by (simp add: s)
    also have "\<dots> = digits_value ys
              (10 * (acc * 10 ^ length (str_of_nat (n div 10)) + n div 10) + n mod 10)"
      by (simp add: digit_of_nth)
    also have "10 * (acc * 10 ^ length (str_of_nat (n div 10)) + n div 10) + n mod 10 =
               acc * 10 ^ length (str_of_nat n) + n"
      by (simp add: s algebra_simps)
    finally show ?thesis .
  qed
qed

lemma unsigned_value_str_of_nat: "unsigned_value (str_of_nat n) = Some n"
proof -
  from str_of_nat_digits [of n] obtain c cs where s: "str_of_nat n = c # cs"
    by (cases "str_of_nat n") auto
  with str_of_nat_digits [of n] have "digit_of c \<noteq> None" by simp
  moreover have "digits_value (str_of_nat n) 0 = Some n"
    using digits_value_str_of_nat [of n "[]" 0] by simp
  ultimately show ?thesis by (simp add: unsigned_value_def s)
qed

lemma strip_no_space: "\<forall>c \<in> set s. \<not> is_space c \<Longrightarrow> strip s = s"
proof -
  assume a: "\<forall>c \<in> set s. \<not> is_space c"
  then have "dropWhile is_space s = s" by (cases s) auto
  moreover from a have "dropWhile is_space (rev s) = rev s" by (cases "rev s") auto
  ultimately show ?thesis by (simp add: strip_def)
qed

lemma int_of_str_str_of_int:
  assumes "length (str_of_nat (nat \<bar>i\<bar>)) \<le> 4300"
  shows "int_of_str (str_of_int i) = Inr i"
proof -
  define n where "n = nat \<bar>i\<bar>"
  define ds where "ds = str_of_nat n"
  from str_of_nat_digits [of n] obtain c cs where s: "ds = c # cs"
    unfolding ds_def by (cases "str_of_nat n") auto
  from str_of_nat_digits [of n] have nosp: "\<forall>c \<in> set ds. \<not> is_space c"
    unfolding ds_def by blast
  from str_of_nat_digits [of n] s have sign: "c \<noteq> CHR ''-''" "c \<noteq> CHR ''+''"
    unfolding ds_def by simp_all
  from str_of_nat_digits [of n]
  have "filter (\<lambda>c. digit_of c \<noteq> None) ds = ds"
    unfolding ds_def by (simp add: filter_id_conv)
  with assms have few: "\<not> length (filter (\<lambda>c. digit_of c \<noteq> None) ds) > 4300"
    unfolding ds_def n_def by simp
  have u: "unsigned_value ds = Some n"
    unfolding ds_def by (rule unsigned_value_str_of_nat)
  have strip_ds: "strip ds = ds" "strip (CHR ''-'' # ds) = CHR ''-'' # ds"
    using nosp by (simp_all add: strip_no_space is_space_def)
  show ?thesis
  proof (cases "i < 0")
    case True
    then have "str_of_int i = CHR ''-'' # ds" "- int n = i"
      by (simp_all add: str_of_int_def ds_def n_def)
    with few u strip_ds show ?thesis
      by (simp add: int_of_str_def Let_def)
  next
    case False
    then have "str_of_int i = ds" "int n = i"
      by (simp_all add: str_of_int_def ds_def n_def)
    with few u strip_ds s sign show ?thesis
      by (simp add: int_of_str_def Let_def)
  qed
qed

lemma strip_samples:
  "strip ''abc'' = ''abc''" "strip [] = []" "strip ''12.5'' = ''12.5''" "strip ''42'' = ''42''"
  by (simp_all add: strip_def is_space_def)

section \<open>The sample run, evaluated\<close>

lemma example_create:
  "create_wall_pair example_env (example_start\<lparr>walls := ws\<rparr>) =
     Inr (example_start\<lparr>walls := ws @ [Wall_init 400 0 80 325 3, Wall_init 400 475 80 325 3]\<rparr>)"
  by (simp add: create_wall_pair_def randint_def example_start_def example_config_def
        example_env_def Let_def)

lemma example_init: "FlappyBird_init example_config None example_env = Inr example_start"
  by (simp add: FlappyBird_init_def load_high_score_def reset_game_def create_wall_pair_def
        randint_def example_start_def example_config_def example_env_def Let_def)

lemma example_draw: "draw example_env example_start = example_drawn"
  by (simp add: draw_def create_button_def Rect_init_def example_drawn_def example_start_def
        example_env_def Let_def)

lemma example_click_starts:
  "handle_event example_click example_env example_drawn = Inr example_playing"
  by (simp add: handle_event_def collidepoint_def Rect_init_def example_click_def
        example_playing_def example_drawn_def example_start_def)

lemma example_tick:
  "update_game_objects (example_env\<lparr>get_ticks := 2000\<rparr>) example_playing =
     Inr (example_over\<lparr>game_state := PLAYING\<rparr>)"
  by (simp add: update_game_objects_def update_walls_def update_enemies_def
        update_projectiles_def spawn_walls_def spawn_enemies_def create_wall_pair_def
        randint_def rect_right_def Wall_update_def Wall_init_def Rect_init_def py_trunc_def
        example_over_def example_playing_def example_drawn_def example_start_def
        example_config_def example_env_def Let_def)

lemma example_collides: "check_collisions (example_over\<lparr>game_state := PLAYING\<rparr>)"
  by (simp add: check_collisions_def rect_bottom_def Player_update_def Player_init_def
        Rect_init_def py_trunc_def
        example_over_def example_playing_def example_drawn_def example_start_def
        example_config_def Let_def)

lemma example_simulate:
  "simulate (example_env\<lparr>get_ticks := 2000\<rparr>) example_playing = Inr example_over"
  by (simp add: simulate_def example_tick example_collides)
     (simp add: example_over_def example_playing_def example_drawn_def example_start_def)

lemma reachable_example_start: "reachable example_start"
  using example_init by (rule reachable_init)

lemma reachable_example_drawn: "reachable example_drawn"
  using reachable_draw [OF reachable_example_start, of example_env] by (simp add: example_draw)

lemma reachable_example_playing: "reachable example_playing"
  using reachable_example_drawn example_click_starts by (rule reachable_event)

lemma reachable_example_over: "reachable example_over"
  using reachable_example_playing example_simulate by (rule reachable_simulate)

section \<open>Player motion\<close>

text \<open>
  C7. For every player, one update sets the velocity to
  \<open>min (velocity + gravity) max_velocity\<close> and then adds the new velocity to \<open>y\<close>, so the
  velocity after a tick never exceeds the configured maximum, whatever it was before; a flap
  sets the velocity to the flap impulse whatever the accumulated fall speed.
\<close>

theorem player_update_velocity_clamped:
  "velocity (Player_update p) = min (velocity p + gravity p) (max_velocity p) \<and>
   pos_y (Player_update p) = pos_y p + velocity (Player_update p) \<and>
   velocity (Player_update p) \<le> max_velocity p \<and>
   max_velocity (Player_update p) = max_velocity p \<and>
   velocity (Player_flap p) = flap_strength p \<and>
   velocity (Player_update (Player_flap p)) \<le> max_velocity p"
  by (simp add: Player_update_def Player_flap_def Let_def)

section \<open>Obstacle pairs and the screen height\<close>

text \<open>
  C1, as the code has it. \<open>create_wall_pair\<close> halves the gap with \<open>//\<close> on both sides of
  the gap centre. For every spawned pair, whatever the gap centre drawn, the top height plus
  \<open>2 * (gap // 2)\<close> plus the bottom height is the screen height; so top height plus the
  configured gap plus bottom height is the screen height when the gap is even (800 and 150:
  the two heights sum to 650) and the screen height plus one when it is odd.
\<close>

theorem create_wall_pair_heights:
  assumes "create_wall_pair env g = Inr g'"
  shows "\<exists>top bottom. walls g' = walls g @ [top, bottom] \<and>
           rect_h (rect top) = obj_height top \<and> rect_h (rect bottom) = obj_height bottom \<and>
           obj_height top + 2 * (walls_gap (config g) div 2) + obj_height bottom = height g \<and>
           obj_height top + walls_gap (config g) + obj_height bottom =
             height g + walls_gap (config g) mod 2"
proof -
  from create_wall_pair_walls [OF assms] obtain gap_y where
    g': "g' = g\<lparr>walls := walls g @
             [Wall_init (width g) 0 (walls_width (config g))
                (gap_y - walls_gap (config g) div 2)
                (walls_speed (config g) * wall_speed_multiplier (config g)),
              Wall_init (width g) (gap_y + walls_gap (config g) div 2) (walls_width (config g))
                (height g - (gap_y + walls_gap (config g) div 2))
                (walls_speed (config g) * wall_speed_multiplier (config g))]\<rparr>"
    by blast
  let ?top = "Wall_init (width g) 0 (walls_width (config g))
                (gap_y - walls_gap (config g) div 2)
                (walls_speed (config g) * wall_speed_multiplier (config g))"
  let ?bottom = "Wall_init (width g) (gap_y + walls_gap (config g) div 2) (walls_width (config g))
                (height g - (gap_y + walls_gap (config g) div 2))
                (walls_speed (config g) * wall_speed_multiplier (config g))"
  have "walls g' = walls g @ [?top, ?bottom]" using g' by simp
  moreover have "rect_h (rect ?top) = obj_height ?top" "rect_h (rect ?bottom) = obj_height ?bottom"
    by (simp_all add: Wall_init_def Rect_init_def)
  moreover have "obj_height ?top + 2 * (walls_gap (config g) div 2) + obj_height ?bottom = height g"
    by (simp add: Wall_init_def)
  moreover have "obj_height ?top + walls_gap (config g) + obj_height ?bottom =
             height g + walls_gap (config g) mod 2"
    by (simp add: Wall_init_def) presburger
  ultimately show ?thesis by blast
qed

theorem create_wall_pair_heights_witness:
  "create_wall_pair example_env (example_start\<lparr>walls := []\<rparr>) = Inr example_start \<and>
   (\<exists>top bottom. walls example_start = [top, bottom] \<and>
      obj_height top + 150 + obj_height bottom = 800)"
proof -
  have h: "create_wall_pair example_env (example_start\<lparr>walls := []\<rparr>) = Inr example_start"
    using example_create [of "[]"] by (simp add: example_start_def)
  from create_wall_pair_heights [OF h] show ?thesis
    using h by (simp add: example_start_def example_config_def)
qed

text \<open>
  C1 as stated fails for an odd gap: with screen height 800, gap 151 and gap centre 400 the
  two segments are 325 high each, and 325 + 151 + 325 is 801.
\<close>

theorem create_wall_pair_odd_gap_counterexample:
  "create_wall_pair (example_env\<lparr>rand_gap := 249\<rparr>) example_odd_gap =
     Inr (example_odd_gap\<lparr>walls := [Wall_init 400 0 80 325 3, Wall_init 400 475 80 325 3]\<rparr>) \<and>
   height example_odd_gap = 800 \<and> walls_gap (config example_odd_gap) = 151 \<and>
   obj_height (Wall_init 400 0 80 325 3) + walls_gap (config example_odd_gap) +
     obj_height (Wall_init 400 475 80 325 3) = 801"
  by (simp add: create_wall_pair_def randint_def Wall_init_def example_odd_gap_def
        example_start_def example_config_def example_env_def Let_def)

section \<open>The fire cooldown\<close>

text \<open>
  C2, as the code has it. \<open>shoot_projectile\<close> compares with \<open>>\<close>: a projectile is
  created (and the last-shot time set to the clock reading) if and only if the time elapsed
  since the last successful fire is strictly greater than the cooldown; a fire attempted
  when at most the cooldown has elapsed changes nothing, neither the projectiles nor the
  last-shot time.
\<close>

theorem shoot_projectile_cooldown:
  "(shot_cooldown g < get_ticks env - last_shot g \<longrightarrow>
      projectiles (shoot_projectile env g) =
        projectiles g @
          [Projectile_init (rect_right (rect (player g))) (rect_centery (rect (player g))) 10] \<and>
      last_shot (shoot_projectile env g) = get_ticks env) \<and>
   (get_ticks env - last_shot g \<le> shot_cooldown g \<longrightarrow> shoot_projectile env g = g)"
  by (simp add: shoot_projectile_def Let_def)

theorem shoot_projectile_cooldown_witness:
  "shot_cooldown example_playing < get_ticks (example_env\<lparr>get_ticks := 1501\<rparr>) -
     last_shot example_playing \<and>
   projectiles (shoot_projectile (example_env\<lparr>get_ticks := 1501\<rparr>) example_playing) =
     [Projectile_init 140 415 10] \<and>
   last_shot (shoot_projectile (example_env\<lparr>get_ticks := 1501\<rparr>) example_playing) = 1501 \<and>
   get_ticks (example_env\<lparr>get_ticks := 1499\<rparr>) - last_shot example_playing
     \<le> shot_cooldown example_playing \<and>
   shoot_projectile (example_env\<lparr>get_ticks := 1499\<rparr>) example_playing = example_playing"
  using shoot_projectile_cooldown [of example_playing "example_env\<lparr>get_ticks := 1501\<rparr>"]
    shoot_projectile_cooldown [of example_playing "example_env\<lparr>get_ticks := 1499\<rparr>"]
  by (simp add: example_playing_def example_drawn_def example_start_def example_config_def
        example_env_def Player_init_def Rect_init_def rect_right_def rect_centery_def)

text \<open>
  C2 as stated fails exactly at the interval: with the last shot at 1000, the cooldown 500
  and the clock at 1500 the fire is rejected.
\<close>

theorem shoot_projectile_at_cooldown_counterexample:
  "get_ticks (example_env\<lparr>get_ticks := 1500\<rparr>) - last_shot example_playing =
     shot_cooldown example_playing \<and>
   shoot_projectile (example_env\<lparr>get_ticks := 1500\<rparr>) example_playing = example_playing \<and>
   projectiles example_playing = []"
  by (simp add: shoot_projectile_def example_playing_def example_drawn_def example_start_def
        example_env_def Let_def)

section \<open>A left click while playing\<close>

text \<open>
  C3 does not hold in the code: the first \<open>MOUSEBUTTONDOWN\<close> branch of the event loop takes
  every mouse event, so the second one, which calls \<open>shoot_projectile\<close> while playing, is
  never reached. Every mouse press handled in \<open>PLAYING\<close> leaves the game as it is. The
  evaluation after it is a left click in \<open>PLAYING\<close> with the cooldown elapsed: no
  projectile, where the right-arrow key in the same state fires one.
\<close>

theorem left_click_while_playing_ignored:
  assumes "game_state g = PLAYING" "event_type event = MOUSEBUTTONDOWN"
  shows "handle_event event env g = Inr g"
  using assms by (simp add: handle_event_MOUSEBUTTONDOWN)

theorem left_click_while_playing_ignored_witness:
  "game_state example_playing = PLAYING \<and> event_type example_click = MOUSEBUTTONDOWN \<and>
   event_button example_click = 1 \<and>
   shot_cooldown example_playing <
     get_ticks (example_env\<lparr>get_ticks := 2000\<rparr>) - last_shot example_playing \<and>
   handle_event example_click (example_env\<lparr>get_ticks := 2000\<rparr>) example_playing =
     Inr example_playing \<and>
   projectiles example_playing = [] \<and>
   handle_event example_right (example_env\<lparr>get_ticks := 2000\<rparr>) example_playing =
     Inr (example_playing\<lparr>projectiles := [Projectile_init 140 415 10], last_shot := 2000\<rparr>)"
proof -
  have a: "game_state example_playing = PLAYING"
    by (simp add: example_playing_def)
  have b: "event_type example_click = MOUSEBUTTONDOWN"
    by (simp add: example_click_def)
  have c: "handle_event example_right (example_env\<lparr>get_ticks := 2000\<rparr>) example_playing =
     Inr (example_playing\<lparr>projectiles := [Projectile_init 140 415 10], last_shot := 2000\<rparr>)"
    by (simp add: handle_event_KEYDOWN shoot_projectile_def example_right_def
          example_playing_def example_drawn_def example_start_def example_config_def
          example_env_def Player_init_def Rect_init_def rect_right_def rect_centery_def Let_def)
  show ?thesis
    using left_click_while_playing_ignored [OF a b, of "example_env\<lparr>get_ticks := 2000\<rparr>"] a b c
    by (simp add: example_click_def example_playing_def example_drawn_def example_start_def
          example_env_def)
qed

section \<open>Restart\<close>

text \<open>
  C4, as the code has it. In every reachable state with game state \<open>GAME_OVER\<close>, the
  restart key (space) succeeds and leads to \<open>PLAYING\<close> after a full reset: score 0, exactly
  one aligned obstacle pair, no enemies, no projectiles, the player as created at the default
  position \<open>(width // 4, height // 2)\<close>, the last-enemy and last-shot times set to the clock
  readings of the reset, and the last-obstacle time set to 0 (not to the clock).
\<close>

theorem restart_resets_session:
  assumes "reachable g" "game_state g = GAME_OVER"
    and "event_type event = KEYDOWN" "event_key event = K_SPACE"
  shows "\<exists>g' top bottom. handle_event event env g = Inr g' \<and>
           game_state g' = PLAYING \<and> score g' = 0 \<and>
           walls g' = [top, bottom] \<and> paired [top, bottom] \<and>
           enemies g' = [] \<and> projectiles g' = [] \<and>
           player g' = Player_init (width g div 4) (height g div 2) (config g) \<and>
           last_wall g' = 0 \<and> last_enemy g' = get_ticks env \<and> last_shot g' = get_ticks2 env"
proof -
  from reachable_inv [OF assms(1)]
  have "walls_gap (config g) \<le> height g - walls_gap (config g)"
    by (simp add: game_inv_def)
  from reset_game_succeeds [OF this, of env] obtain g1 top bottom where
    r: "reset_game env g = Inr g1"
    and g1: "g1 = g\<lparr>player := Player_init (width g div 4) (height g div 2) (config g),
                  walls := [top, bottom], enemies := [], projectiles := [],
                  last_wall := 0, last_enemy := get_ticks env, last_shot := get_ticks2 env,
                  score := 0\<rparr>"
    and p: "paired [top, bottom]"
    by blast
  have "handle_event event env g = Inr (g1\<lparr>game_state := PLAYING\<rparr>)"
    using assms(2-4) r by (simp add: handle_event_KEYDOWN)
  with g1 p show ?thesis by simp
qed

theorem restart_resets_session_witness:
  "reachable example_over \<and> game_state example_over = GAME_OVER \<and>
   event_type example_space = KEYDOWN \<and> event_key example_space = K_SPACE \<and>
   handle_event example_space (example_env\<lparr>get_ticks := 5000, get_ticks2 := 5001\<rparr>) example_over =
     Inr (example_playing\<lparr>last_enemy := 5000, last_shot := 5001\<rparr>) \<and>
   score (example_playing\<lparr>last_enemy := 5000, last_shot := 5001\<rparr>) = 0 \<and>
   walls (example_playing\<lparr>last_enemy := 5000, last_shot := 5001\<rparr>) =
     [Wall_init 400 0 80 325 3, Wall_init 400 475 80 325 3] \<and>
   last_wall (example_playing\<lparr>last_enemy := 5000, last_shot := 5001\<rparr>) = 0"
proof -
  have a: "game_state example_over = GAME_OVER"
    by (simp add: example_over_def)
  have b: "event_type example_space = KEYDOWN" "event_key example_space = K_SPACE"
    by (simp_all add: example_space_def)
  let ?env = "example_env\<lparr>get_ticks := 5000, get_ticks2 := 5001\<rparr>"
  let ?g = "example_playing\<lparr>last_enemy := 5000, last_shot := 5001\<rparr>"
  have e: "handle_event example_space ?env example_over = Inr ?g"
    by (simp add: handle_event_KEYDOWN reset_game_def create_wall_pair_def randint_def
          example_space_def example_over_def example_playing_def example_drawn_def
          example_start_def example_config_def example_env_def Let_def)
  from restart_resets_session [OF reachable_example_over a b, of ?env]
  obtain g' where "handle_event example_space ?env example_over = Inr g'"
    and props: "score g' = 0" "last_wall g' = 0"
    by blast
  with e have "g' = ?g" by simp
  with props have "score ?g = 0" "last_wall ?g = 0" by simp_all
  moreover have "walls ?g = [Wall_init 400 0 80 325 3, Wall_init 400 475 80 325 3]"
    by (simp add: example_playing_def example_drawn_def example_start_def)
  ultimately show ?thesis
    using reachable_example_over a b e by simp
qed

text \<open>
  C4 as stated fails for the last-obstacle time: a restart with the clock at 5000 leaves it
  at 0.
\<close>

theorem restart_last_wall_counterexample:
  "game_state example_over = GAME_OVER \<and>
   handle_event example_space (example_env\<lparr>get_ticks := 5000, get_ticks2 := 5000\<rparr>) example_over =
     Inr (example_playing\<lparr>last_enemy := 5000, last_shot := 5000\<rparr>) \<and>
   get_ticks (example_env\<lparr>get_ticks := 5000, get_ticks2 := 5000\<rparr>) = 5000 \<and>
   last_wall (example_playing\<lparr>last_enemy := 5000, last_shot := 5000\<rparr>) = 0"
  by (simp add: handle_event_KEYDOWN reset_game_def create_wall_pair_def randint_def
        example_space_def example_over_def example_playing_def example_drawn_def
        example_start_def example_config_def example_env_def Let_def)

section \<open>The high score at game over\<close>

text \<open>
  C5. In every reachable state in \<open>PLAYING\<close> whose tick ends in a collision, the tick
  leaves the game in \<open>GAME_OVER\<close>, and the stored high score is replaced by the truncated
  score and written to the file if and only if the truncated score exceeds the stored high
  score; otherwise the high score and the file are as the tick's updates left them. (The
  code compares the untruncated score; on a reachable state the score is a whole number, so
  the two tests agree.)
\<close>

theorem game_over_high_score:
  assumes "reachable g" "game_state g = PLAYING"
    and "update_game_objects env g = Inr g1" "check_collisions g1"
  shows "high_score g1 = high_score g \<and> highscore_txt g1 = highscore_txt g \<and>
         simulate env g =
           Inr (if py_trunc (score g1) > high_score g
                then g1\<lparr>high_score := py_trunc (score g1),
                        highscore_txt := Some (str_of_int (py_trunc (score g1))),
                        game_state := GAME_OVER\<rparr>
                else g1\<lparr>game_state := GAME_OVER\<rparr>)"
proof -
  from update_game_objects_high_score [OF assms(3)]
  have same: "high_score g1 = high_score g" "highscore_txt g1 = highscore_txt g"
    by simp_all
  from update_game_objects_inv [OF reachable_inv [OF assms(1)] assms(3)]
  have "score g1 \<in> \<int>" by (simp add: game_inv_def)
  from whole_score_exceeds [OF this]
  have "(score g1 > of_int (high_score g1)) = (py_trunc (score g1) > high_score g1)" .
  with assms(2-4) same show ?thesis
    by (simp add: simulate_def save_high_score_def)
qed

theorem game_over_high_score_witness:
  "reachable example_playing \<and> game_state example_playing = PLAYING \<and>
   update_game_objects (example_env\<lparr>get_ticks := 2000\<rparr>) example_playing =
     Inr (example_over\<lparr>game_state := PLAYING\<rparr>) \<and>
   check_collisions (example_over\<lparr>game_state := PLAYING\<rparr>) \<and>
   \<not> py_trunc (score (example_over\<lparr>game_state := PLAYING\<rparr>)) >
       high_score example_playing \<and>
   simulate (example_env\<lparr>get_ticks := 2000\<rparr>) example_playing =
     Inr (example_over\<lparr>game_state := PLAYING, game_state := GAME_OVER\<rparr>)"
proof -
  have a: "game_state example_playing = PLAYING" by (simp add: example_playing_def)
  have b: "\<not> py_trunc (score (example_over\<lparr>game_state := PLAYING\<rparr>)) >
       high_score example_playing"
    by (simp add: py_trunc_def example_over_def example_playing_def example_drawn_def
          example_start_def)
  from game_over_high_score [OF reachable_example_playing a example_tick example_collides] b
  have "simulate (example_env\<lparr>get_ticks := 2000\<rparr>) example_playing =
     Inr (example_over\<lparr>game_state := PLAYING, game_state := GAME_OVER\<rparr>)"
    by simp
  with reachable_example_playing a example_tick example_collides b show ?thesis
    by blast
qed

section \<open>Loading the high score\<close>

text \<open>
  C6 does not hold in the code. \<open>load_high_score\<close> returns 0 for a missing file, but
  its handler catches \<open>FileNotFoundError\<close> only: for every content that \<open>int\<close> rejects,
  the \<open>ValueError\<close> leaves \<open>load_high_score\<close> and, through it, \<open>FlappyBird.__init__\<close>,
  so startup fails instead of taking 0. The evaluation after it is the content \<open>abc\<close> and
  the empty file.
\<close>

theorem load_high_score_corrupt_raises:
  assumes "int_of_str content = Inl ValueError"
  shows "load_high_score None = Inr 0 \<and>
         load_high_score (Some content) = Inl ValueError \<and>
         FlappyBird_init cfg (Some content) env = Inl ValueError"
  using assms by (simp add: load_high_score_def FlappyBird_init_def)

theorem load_high_score_corrupt_raises_witness:
  "int_of_str ''abc'' = Inl ValueError \<and>
   load_high_score (Some ''abc'') = Inl ValueError \<and>
   FlappyBird_init example_config (Some ''abc'') example_env = Inl ValueError \<and>
   int_of_str [] = Inl ValueError \<and>
   load_high_score (Some []) = Inl ValueError \<and>
   FlappyBird_init example_config (Some []) example_env = Inl ValueError \<and>
   load_high_score None = Inr 0 \<and>
   load_high_score (Some ''42'') = Inr 42"
proof -
  have a: "int_of_str ''abc'' = Inl ValueError"
    by (simp add: int_of_str_def strip_samples unsigned_value_def digit_of_def upt_conv_Cons
          Let_def)
  have b: "int_of_str [] = Inl ValueError"
    by (simp add: int_of_str_def strip_samples unsigned_value_def Let_def)
  have c: "load_high_score (Some ''42'') = Inr 42"
    by (simp add: load_high_score_def int_of_str_def strip_samples unsigned_value_def
          digit_of_def upt_conv_Cons Let_def)
  from load_high_score_corrupt_raises [OF a, of example_config example_env]
    load_high_score_corrupt_raises [OF b, of example_config example_env] a b c
  show ?thesis by simp
qed

section \<open>A projectile hits an enemy\<close>

text \<open>
  C8, as the code has it. Take any projectile of a tick, and let \<open>es\<close> be the enemies live
  when the loop reaches it. If its move takes it beyond the right edge of the screen, it is
  removed without any hit test: enemies and score stay as they are. If it is not beyond the
  edge and its box intersects a live enemy, so that \<open>es\<close> is \<open>pre @ enemy # post\<close> with
  \<open>enemy\<close> the first one it intersects, then handling it removes exactly \<open>enemy\<close> (the
  enemies become \<open>pre @ post\<close>, so later matches are untouched), does not keep the
  projectile, and adds exactly 2 to the score. If it is not beyond the edge and intersects no
  live enemy, it is kept, moved, and nothing else changes. In each case the tick's result is
  what the rest of the loop makes of that.
\<close>

theorem projectile_hit_consumes_first_enemy:
  assumes "projectiles g = before @ projectile # rest"
    and "projectiles_loop (width g) before ([], enemies g, score g) = (kept, es, s)"
  shows "(rect_left (rect (Projectile_update projectile)) > width g \<longrightarrow>
            projectiles_loop (width g) (before @ [projectile]) ([], enemies g, score g) =
              (kept, es, s) \<and>
            update_projectiles g =
              (case projectiles_loop (width g) rest (kept, es, s) of
                 (ps, es', s') \<Rightarrow> g\<lparr>projectiles := ps, enemies := es', score := s'\<rparr>)) \<and>
         (\<not> rect_left (rect (Projectile_update projectile)) > width g \<and>
          es = pre @ enemy # post \<and>
          (\<forall>e \<in> set pre. \<not> colliderect (rect (Projectile_update projectile)) (rect e)) \<and>
          colliderect (rect (Projectile_update projectile)) (rect enemy) \<longrightarrow>
            projectiles_loop (width g) (before @ [projectile]) ([], enemies g, score g) =
              (kept, pre @ post, s + 2) \<and>
            update_projectiles g =
              (case projectiles_loop (width g) rest (kept, pre @ post, s + 2) of
                 (ps, es', s') \<Rightarrow> g\<lparr>projectiles := ps, enemies := es', score := s'\<rparr>)) \<and>
         (\<not> rect_left (rect (Projectile_update projectile)) > width g \<and>
          (\<forall>e \<in> set es. \<not> colliderect (rect (Projectile_update projectile)) (rect e)) \<longrightarrow>
            projectiles_loop (width g) (before @ [projectile]) ([], enemies g, score g) =
              (kept @ [Projectile_update projectile], es, s) \<and>
            update_projectiles g =
              (case projectiles_loop (width g) rest
                      (kept @ [Projectile_update projectile], es, s) of
                 (ps, es', s') \<Rightarrow> g\<lparr>projectiles := ps, enemies := es', score := s'\<rparr>))"
proof -
  let ?p = "Projectile_update projectile"
  have split_loop:
    "projectiles_loop (width g) (before @ [projectile]) ([], enemies g, score g) = st \<and>
     update_projectiles g =
       (case projectiles_loop (width g) rest st of
          (ps, es', s') \<Rightarrow> g\<lparr>projectiles := ps, enemies := es', score := s'\<rparr>)"
    if "\<And>tl'. projectiles_loop (width g) (projectile # tl') (kept, es, s) =
                 projectiles_loop (width g) tl' st" for st
  proof -
    have "projectiles_loop (width g) (before @ [projectile]) ([], enemies g, score g) = st"
      using that [of "[]"] by (simp add: projectiles_loop_append assms(2))
    moreover have "projectiles_loop (width g) (projectiles g) ([], enemies g, score g) =
          projectiles_loop (width g) rest st"
      using that [of rest] by (simp add: assms projectiles_loop_append)
    ultimately show ?thesis by (simp add: update_projectiles_def)
  qed
  have past: "projectiles_loop (width g) (projectile # tl') (kept, es, s) =
                projectiles_loop (width g) tl' (kept, es, s)"
    if "rect_left (rect ?p) > width g" for tl'
    using that by (simp add: Let_def)
  have hit: "projectiles_loop (width g) (projectile # tl') (kept, es, s) =
               projectiles_loop (width g) tl' (kept, pre @ post, s + 2)"
    if "\<not> rect_left (rect ?p) > width g" "es = pre @ enemy # post"
      "\<forall>e \<in> set pre. \<not> colliderect (rect ?p) (rect e)" "colliderect (rect ?p) (rect enemy)"
    for tl'
    using that(1,2) hit_enemy_first [OF that(3,4), of post] by (simp add: Let_def)
  have miss: "projectiles_loop (width g) (projectile # tl') (kept, es, s) =
               projectiles_loop (width g) tl' (kept @ [?p], es, s)"
    if "\<not> rect_left (rect ?p) > width g" "\<forall>e \<in> set es. \<not> colliderect (rect ?p) (rect e)"
    for tl'
    using that(1) hit_enemy_none [OF that(2)] by (simp add: Let_def)
  show ?thesis
    using split_loop [OF past] split_loop [OF hit] split_loop [OF miss]
    by blast
qed

theorem projectile_hit_consumes_first_enemy_witness:
  "projectiles example_armed = [] @ Projectile_init 140 415 10 # [] \<and>
   projectiles_loop (width example_armed) [] ([], enemies example_armed, score example_armed) =
     ([], [Enemy_init 300 100 example_config 1 1 0] @
          Enemy_init 150 400 example_config 1 (- 1) 0 # [Enemy_init 160 410 example_config 1 1 0],
      0) \<and>
   \<not> rect_left (rect (Projectile_update (Projectile_init 140 415 10))) > width example_armed \<and>
   \<not> colliderect (rect (Projectile_update (Projectile_init 140 415 10)))
       (rect (Enemy_init 300 100 example_config 1 1 0)) \<and>
   colliderect (rect (Projectile_update (Projectile_init 140 415 10)))
     (rect (Enemy_init 150 400 example_config 1 (- 1) 0)) \<and>
   colliderect (rect (Projectile_update (Projectile_init 140 415 10)))
     (rect (Enemy_init 160 410 example_config 1 1 0)) \<and>
   update_projectiles example_armed =
     example_armed\<lparr>projectiles := [],
       enemies := [Enemy_init 300 100 example_config 1 1 0, Enemy_init 160 410 example_config 1 1 0],
       score := 2\<rparr> \<and>
   update_projectiles (example_armed\<lparr>enemies := [Enemy_init 300 100 example_config 1 1 0]\<rparr>) =
     example_armed\<lparr>projectiles := [Projectile_update (Projectile_init 140 415 10)],
       enemies := [Enemy_init 300 100 example_config 1 1 0]\<rparr> \<and>
   projectiles example_edge = [] @ Projectile_init 395 415 10 # [] \<and>
   rect_left (rect (Projectile_update (Projectile_init 395 415 10))) > width example_edge \<and>
   update_projectiles example_edge = example_edge\<lparr>projectiles := []\<rparr>"
proof -
  let ?p = "Projectile_init 140 415 10"
  let ?q = "Projectile_init 395 415 10"
  let ?e1 = "Enemy_init 300 100 example_config 1 1 0"
  let ?e2 = "Enemy_init 150 400 example_config 1 (- 1) 0"
  let ?e3 = "Enemy_init 160 410 example_config 1 1 0"
  let ?g = "example_armed\<lparr>enemies := [?e1]\<rparr>"
  have defs: "projectiles example_armed = [?p]" "enemies example_armed = [?e1, ?e2, ?e3]"
    "score example_armed = 0" "width example_armed = 400"
    by (simp_all add: example_armed_def example_enemies_def example_playing_def
          example_drawn_def example_start_def)
  have edge: "projectiles example_edge = [?q]" "width example_edge = 400"
    "score example_edge = 0" "enemies example_edge = [Enemy_init 398 400 example_config 1 1 0]"
    by (simp_all add: example_edge_def example_playing_def example_drawn_def example_start_def)
  have r: "rect (Projectile_update ?p) = Rect_init 150 415 20 10"
    by (simp add: Projectile_update_def Projectile_init_def Rect_init_def py_trunc_def Let_def)
  have rq: "rect (Projectile_update ?q) = Rect_init 405 415 20 10"
    by (simp add: Projectile_update_def Projectile_init_def Rect_init_def py_trunc_def Let_def)
  have a: "projectiles example_armed = [] @ ?p # []" using defs by simp
  have b: "projectiles_loop (width example_armed) []
             ([], enemies example_armed, score example_armed) = ([], [?e1] @ ?e2 # [?e3], 0)"
    using defs by simp
  have c: "\<not> rect_left (rect (Projectile_update ?p)) > width example_armed"
    by (simp add: r defs rect_left_def Rect_init_def)
  have d1: "\<not> colliderect (rect (Projectile_update ?p)) (rect ?e1)"
    by (simp add: r colliderect_def Enemy_init_def Rect_init_def example_config_def)
  then have d: "\<forall>e \<in> set [?e1]. \<not> colliderect (rect (Projectile_update ?p)) (rect e)"
    by simp
  have e: "colliderect (rect (Projectile_update ?p)) (rect ?e2)"
    by (simp add: r colliderect_def Enemy_init_def Rect_init_def example_config_def)
  have f: "colliderect (rect (Projectile_update ?p)) (rect ?e3)"
    by (simp add: r colliderect_def Enemy_init_def Rect_init_def example_config_def)
  from projectile_hit_consumes_first_enemy
         [OF a b, where pre = "[?e1]" and enemy = ?e2 and post = "[?e3]"] c d e
  have 1: "update_projectiles example_armed =
          example_armed\<lparr>projectiles := [], enemies := [?e1, ?e3], score := 2\<rparr>"
    by simp
  have a2: "projectiles ?g = [] @ ?p # []" using defs by simp
  have b2: "projectiles_loop (width ?g) [] ([], enemies ?g, score ?g) = ([], [?e1], 0)"
    using defs by simp
  have c2: "\<not> rect_left (rect (Projectile_update ?p)) > width ?g"
    using c by simp
  from projectile_hit_consumes_first_enemy [OF a2 b2] c2 d
  have "update_projectiles ?g =
          ?g\<lparr>projectiles := [Projectile_update ?p], enemies := [?e1], score := 0\<rparr>"
    by simp
  then have 2: "update_projectiles ?g =
          example_armed\<lparr>projectiles := [Projectile_update ?p], enemies := [?e1]\<rparr>"
    using defs(3) by simp
  have a3: "projectiles example_edge = [] @ ?q # []" using edge by simp
  have b3: "projectiles_loop (width example_edge) []
              ([], enemies example_edge, score example_edge) =
              ([], enemies example_edge, score example_edge)"
    by simp
  have c3: "rect_left (rect (Projectile_update ?q)) > width example_edge"
    by (simp add: rq edge rect_left_def Rect_init_def)
  from projectile_hit_consumes_first_enemy [OF a3 b3] c3
  have 3: "update_projectiles example_edge = example_edge\<lparr>projectiles := []\<rparr>"
    by simp
  from a b c d1 e f 1 2 a3 c3 3 show ?thesis by blast
qed

text \<open>
  C8 as stated fails for a projectile that its move takes beyond the right edge: it is
  culled before any test, so an enemy whose box it intersects there stays, and the score
  does not change. Here the screen is 400 wide, the projectile moves from 395 to 405 and
  the enemy's box starts at 398.
\<close>

theorem projectile_past_edge_counterexample:
  "projectiles example_edge = [Projectile_init 395 415 10] \<and>
   enemies example_edge = [Enemy_init 398 400 example_config 1 1 0] \<and>
   colliderect (rect (Projectile_update (Projectile_init 395 415 10)))
     (rect (Enemy_init 398 400 example_config 1 1 0)) \<and>
   rect_left (rect (Projectile_update (Projectile_init 395 415 10))) > width example_edge \<and>
   update_projectiles example_edge = example_edge\<lparr>projectiles := []\<rparr> \<and>
   enemies (update_projectiles example_edge) = enemies example_edge \<and>
   score (update_projectiles example_edge) = score example_edge"
proof -
  have r: "rect (Projectile_update (Projectile_init 395 415 10)) = Rect_init 405 415 20 10"
    by (simp add: Projectile_update_def Projectile_init_def Rect_init_def py_trunc_def Let_def)
  have u: "update_projectiles example_edge = example_edge\<lparr>projectiles := []\<rparr>"
    by (simp add: update_projectiles_def r rect_left_def Rect_init_def example_edge_def
          example_playing_def example_drawn_def example_start_def Let_def)
  show ?thesis
    by (simp add: u)
       (simp add: r colliderect_def rect_left_def Enemy_init_def Rect_init_def example_edge_def
          example_playing_def example_drawn_def example_start_def example_config_def)
qed

section \<open>Only the documented triggers act\<close>

text \<open>
  C9. A flap key-press handled in \<open>START\<close> leaves the whole game as it is (state and
  player velocity included); every event that is not a documented trigger of the current
  state is ignored without error; an event changes the game state only from \<open>START\<close> to
  \<open>PLAYING\<close> (left press on the start control) or from \<open>GAME_OVER\<close> to \<open>PLAYING\<close>
  (restart key); a tick changes it only from \<open>PLAYING\<close> to \<open>GAME_OVER\<close>, on a collision;
  drawing never changes it.
\<close>

theorem only_documented_triggers_act:
  "(game_state g = START \<and> event_type event = KEYDOWN \<and> event_key event = K_SPACE \<longrightarrow>
      handle_event event env g = Inr g) \<and>
   (\<not> accepted_trigger g event \<longrightarrow> handle_event event env g = Inr g) \<and>
   (handle_event event env g = Inr g' \<and> game_state g' \<noteq> game_state g \<longrightarrow>
      (game_state g = START \<and> game_state g' = PLAYING \<and>
         event_type event = MOUSEBUTTONDOWN \<and> accepted_trigger g event) \<or>
      (game_state g = GAME_OVER \<and> game_state g' = PLAYING \<and>
         event_type event = KEYDOWN \<and> event_key event = K_SPACE)) \<and>
   (simulate env g = Inr g' \<and> game_state g' \<noteq> game_state g \<longrightarrow>
      game_state g = PLAYING \<and> game_state g' = GAME_OVER \<and>
      (\<exists>g1. update_game_objects env g = Inr g1 \<and> check_collisions g1)) \<and>
   game_state (draw env g) = game_state g"
proof -
  have "handle_event event env g = Inr g"
    if "game_state g = START" "event_type event = KEYDOWN" "event_key event = K_SPACE"
    using that by (simp add: handle_event_KEYDOWN)
  moreover have "game_state (draw env g) = game_state g"
    by (simp add: draw_def)
  ultimately show ?thesis
    using handle_event_ignored [of g event env] handle_event_transition [of event env g g']
      simulate_transition [of env g g']
    by blast
qed

theorem only_documented_triggers_act_witness:
  "game_state example_start = START \<and> event_type example_space = KEYDOWN \<and>
   event_key example_space = K_SPACE \<and> \<not> accepted_trigger example_start example_space \<and>
   handle_event example_space example_env example_start = Inr example_start \<and>
   handle_event example_click example_env example_drawn = Inr example_playing \<and>
   game_state example_playing \<noteq> game_state example_drawn \<and>
   game_state example_drawn = START \<and> game_state example_playing = PLAYING \<and>
   accepted_trigger example_drawn example_click \<and>
   simulate (example_env\<lparr>get_ticks := 2000\<rparr>) example_playing = Inr example_over \<and>
   game_state example_over \<noteq> game_state example_playing \<and>
   game_state example_over = GAME_OVER"
proof -
  have a: "game_state example_start = START" "event_type example_space = KEYDOWN"
    "event_key example_space = K_SPACE"
    by (simp_all add: example_start_def example_space_def)
  have b: "game_state example_playing \<noteq> game_state example_drawn"
    by (simp add: example_playing_def example_drawn_def example_start_def)
  have c: "game_state example_over \<noteq> game_state example_playing"
    by (simp add: example_over_def example_playing_def)
  have d: "event_type example_click = MOUSEBUTTONDOWN"
    by (simp add: example_click_def)
  from only_documented_triggers_act [of example_start example_space example_env example_start] a
  have 1: "handle_event example_space example_env example_start = Inr example_start"
    and 2: "\<not> accepted_trigger example_start example_space"
    by (simp_all add: accepted_trigger_def)
  from only_documented_triggers_act
         [of example_drawn example_click example_env example_playing] example_click_starts b d
  have 3: "game_state example_drawn = START \<and> game_state example_playing = PLAYING \<and>
           accepted_trigger example_drawn example_click"
    by simp
  from only_documented_triggers_act
         [of example_playing example_click "example_env\<lparr>get_ticks := 2000\<rparr>" example_over]
       example_simulate c
  have 4: "game_state example_over = GAME_OVER"
    by simp
  from a 1 2 3 4 b c example_click_starts example_simulate show ?thesis by blast
qed

section \<open>Obstacle pairs stay aligned\<close>

text \<open>
  C10. In every reachable state the walls are a list of pairs whose two segments have the
  same x position, width and speed, so the list has even length and the culling test of a
  tick gives the same answer for the two segments of a pair; the walls after the culling
  pass are such a list again, and the pass removes \<open>k\<close> pairs and adds exactly \<open>k\<close> to the
  score. (The pass of a tick runs on the state with the player moved, which has the same
  walls and score.)
\<close>

theorem wall_pairs_stay_aligned:
  assumes "reachable g"
  shows "paired (walls g) \<and> even (length (walls g)) \<and>
         (\<forall>i. 2 * i + 1 < length (walls g) \<longrightarrow>
            pos_x (walls g ! (2 * i)) = pos_x (walls g ! (2 * i + 1)) \<and>
            obj_width (walls g ! (2 * i)) = obj_width (walls g ! (2 * i + 1)) \<and>
            wall_speed (walls g ! (2 * i)) = wall_speed (walls g ! (2 * i + 1)) \<and>
            (rect_right (rect (Wall_update (walls g ! (2 * i)))) < 0 \<longleftrightarrow>
             rect_right (rect (Wall_update (walls g ! (2 * i + 1)))) < 0)) \<and>
         paired (walls (update_walls g)) \<and>
         (\<exists>k. length (walls g) = length (walls (update_walls g)) + 2 * k \<and>
              score (update_walls g) = score g + of_nat k)"
proof -
  from reachable_inv [OF assms] have p: "paired (walls g)"
    by (simp add: game_inv_def)
  have nth: "pos_x (walls g ! (2 * i)) = pos_x (walls g ! (2 * i + 1)) \<and>
            obj_width (walls g ! (2 * i)) = obj_width (walls g ! (2 * i + 1)) \<and>
            wall_speed (walls g ! (2 * i)) = wall_speed (walls g ! (2 * i + 1)) \<and>
            (rect_right (rect (Wall_update (walls g ! (2 * i)))) < 0 \<longleftrightarrow>
             rect_right (rect (Wall_update (walls g ! (2 * i + 1)))) < 0)"
    if "2 * i + 1 < length (walls g)" for i
    using paired_nth [OF p that] pair_culled_together [of "walls g ! (2 * i)" "walls g ! (2 * i + 1)"]
    by simp
  from walls_loop_paired [OF p, of "[]" "score g"] obtain k ws' where
    loop: "walls_loop (walls g) ([], score g) = (ws', score g + of_nat k)"
    and p': "paired ws'" and len: "length (walls g) = length ws' + 2 * k"
    by auto
  from loop have "walls (update_walls g) = ws'" "score (update_walls g) = score g + of_nat k"
    by (simp_all add: update_walls_def)
  with p' len have "paired (walls (update_walls g))"
    "\<exists>k. length (walls g) = length (walls (update_walls g)) + 2 * k \<and>
              score (update_walls g) = score g + of_nat k"
    by auto
  with p paired_even [OF p] nth show ?thesis by blast
qed

theorem wall_pairs_stay_aligned_witness:
  "reachable example_over \<and> paired (walls example_over) \<and> length (walls example_over) = 4 \<and>
   pos_x (walls example_over ! 0) = 397 \<and> pos_x (walls example_over ! 1) = 397 \<and>
   paired (walls (update_walls example_over)) \<and>
   length (walls (update_walls example_over)) = 4 \<and>
   score (update_walls example_over) = score example_over"
proof -
  have w: "walls example_over =
     [Wall_update (Wall_init 400 0 80 325 3), Wall_update (Wall_init 400 475 80 325 3),
      Wall_init 400 0 80 325 3, Wall_init 400 475 80 325 3]"
    by (simp add: example_over_def)
  have u: "walls (update_walls example_over) =
     map Wall_update (walls example_over) \<and>
     score (update_walls example_over) = score example_over"
    by (simp add: w update_walls_def rect_right_def Wall_update_def Wall_init_def Rect_init_def
          py_trunc_def Let_def)
  have x: "pos_x (walls example_over ! 0) = 397" "pos_x (walls example_over ! 1) = 397"
    by (simp_all add: w Wall_update_def Wall_init_def Let_def)
  from wall_pairs_stay_aligned [OF reachable_example_over]
  have "paired (walls example_over)" "paired (walls (update_walls example_over))"
    by blast+
  with reachable_example_over u x show ?thesis
    by (simp add: w)
qed

end
